theory Spec2Isabelle
  imports Complex_Main "HOL-Library.Char_ord" "HOL-Library.List_Lexorder" "HOL-Library.AList" "HOL-Library.Sublist"
    "HOL-Library.Multiset"
begin

section \<open>Values of the go-data container\<close>

text \<open>
  The reflect types that occur inside a \<open>Data\<close> (\<open>types.go\<close>): the widened scalar
  kinds, \<open>RawData\<close> (\<open>typeOfObject\<close>), the unnamed type \<open>map[string]interface{}\<close>
  (\<open>typeOfPlainMap\<close>: \<open>toLargestType\<close> keeps a map type as it is, so the encoder
  turns a \<open>[]map[string]interface{}\<close> into a slice of that type, whose elements
  are not of type \<open>RawData\<close>), the empty interface and slices of these. Maps with a
  key that is not a string and \<open>time.Time\<close> are left out of the value universe.
\<close>

datatype gtype =
    typeOfBool | typeOfInt64 | typeOfUint64 | typeOfFloat64 | typeOfComplex128
  | typeOfString | typeOfObject | typeOfPlainMap | typeOfInterface | SliceOf gtype

text \<open>
  A \<open>float64\<close> by its exact value: every finite float64 is a rational, and the
  comparisons and \<open>math.Round\<close> of the decoder are exact on it. The sign of zero is
  not kept.
\<close>

datatype float64 = Finite rat | PosInf | NegInf | NaN

datatype scalar =
    SBool bool
  | SInt64 int
  | SUint64 nat
  | SFloat64 float64
  | SComplex128 float64 float64
  | SString string

text \<open>
  A value as \<open>reflect.DeepEqual\<close> sees it, used where no storage is shared: what
  \<open>Parse\<close> builds and what \<open>String\<close> reads. \<open>TNil\<close> is the nil interface,
  \<open>TNilObject\<close> a nil \<open>RawData\<close>, \<open>TNilSlice t\<close> a nil slice of element type \<open>t\<close>.
  \<open>TPlainMap\<close> and \<open>TNilPlainMap\<close> are a \<open>map[string]interface{}\<close> and its nil:
  \<open>DeepEqual\<close> tells them from a \<open>RawData\<close> with the same entries, by the type.
  The entries of a map are kept sorted by key, the one representation of a Go map.
\<close>

datatype tree =
    TNil
  | TScalar scalar
  | TObject "(string \<times> tree) list"
  | TNilObject
  | TSlice gtype "tree list"
  | TNilSlice gtype
  | TPlainMap "(string \<times> tree) list"
  | TNilPlainMap

type_synonym RawData = "(string \<times> tree) list"

text \<open>\<open>type Data struct { data RawData }\<close>; \<open>None\<close> is the nil map of the zero \<open>Data\<close>.\<close>

datatype Data = Data (data: "RawData option")

text \<open>Assignment \<open>d[k] = v\<close> on a map kept sorted by key.\<close>

fun mapassign :: "string \<Rightarrow> tree \<Rightarrow> RawData \<Rightarrow> RawData" where
  "mapassign k v [] = [(k, v)]"
| "mapassign k v ((k', v') # m) =
     (if k = k' then (k, v) # m
      else if k < k' then (k, v) # (k', v') # m
      else (k', v') # mapassign k v m)"

section \<open>Errors and outcomes\<close>

text \<open>
  One constructor for each error message of the package:
  \<open>ErrInvalidFormat\<close> "invalid data string format", \<open>ErrInvalidType\<close> "invalid data
  type '%v'", \<open>ErrInvalidJSON\<close> "invalid JSON string", \<open>ErrNotObject\<close> "JSON must be an
  object", \<open>ErrInvalidQuery\<close> "fail to apply patch due to invalid query `%v` when
  updating", \<open>ErrUnsupportedTarget\<close> "fail to apply patch due to query `%v` pointing to
  a value in unsupported type".
\<close>

datatype error =
    ErrInvalidFormat
  | ErrInvalidType string
  | ErrInvalidJSON
  | ErrNotObject
  | ErrInvalidQuery string
  | ErrUnsupportedTarget string

text \<open>
  What a call does: it returns, it returns an error, it panics in the runtime or in
  package reflect, or (for the deep walks over the store) the model ran out of fuel.
\<close>

datatype 'a outcome = Ok 'a | Err error | Panic | OutOfFuel

text \<open>Sequencing: the first call that does not return normally ends the whole call.\<close>

definition obind :: "'a outcome \<Rightarrow> ('a \<Rightarrow> 'b outcome) \<Rightarrow> 'b outcome" where
  "obind x f = (case x of Ok a \<Rightarrow> f a | Err e \<Rightarrow> Err e | Panic \<Rightarrow> Panic | OutOfFuel \<Rightarrow> OutOfFuel)"

section \<open>The text codec: decoding\<close>

text \<open>
  A \<open>gjson.Result\<close>: its \<open>Type\<close> (Null, False, True, Number, String, JSON), with
  \<open>Num\<close> for a number, \<open>Str\<close> for a string, and for \<open>JSON\<close> the members that
  \<open>ForEach\<close> and \<open>Array\<close> visit, in document order.
\<close>

datatype gjson =
    GNull | GFalse | GTrue
  | GNumber float64
  | GString string
  | GObject "(string \<times> gjson) list"
  | GArray "gjson list"

fun IsObject :: "gjson \<Rightarrow> bool" where
  "IsObject (GObject _) = True"
| "IsObject _ = False"

definition MinInt64 :: int where "MinInt64 = - (2 ^ 63)"
definition MaxInt64 :: int where "MaxInt64 = 2 ^ 63 - 1"

text \<open>
  The constant \<open>math.MaxInt64\<close> in a comparison with a \<open>float64\<close> is converted to
  \<open>float64\<close>: it is rounded to \<open>2 ^ 63\<close>. \<open>math.MinInt64\<close> is exact.
\<close>

definition float64_MaxInt64 :: rat where "float64_MaxInt64 = 2 ^ 63"
definition float64_MinInt64 :: rat where "float64_MinInt64 = - (2 ^ 63)"

text \<open>\<open>f >= math.MinInt64 && f <= math.MaxInt64 && math.Round(f) == f\<close>\<close>

fun is_int64_number :: "float64 \<Rightarrow> bool" where
  "is_int64_number (Finite q) =
     (q \<ge> float64_MinInt64 \<and> q \<le> float64_MaxInt64 \<and> rat_of_int (round q) = q)"
| "is_int64_number _ = False"

text \<open>
  The conversion \<open>int64(f)\<close>: truncation when the value fits; otherwise the language
  leaves the result to the implementation, here the parameter \<open>ovf\<close>.
\<close>

fun int64_of_float64 :: "int \<Rightarrow> float64 \<Rightarrow> int" where
  "int64_of_float64 ovf (Finite q) =
     (if rat_of_int MinInt64 \<le> q \<and> q \<le> rat_of_int MaxInt64
      then (if q \<ge> 0 then \<lfloor>q\<rfloor> else \<lceil>q\<rceil>) else ovf)"
| "int64_of_float64 ovf _ = ovf"

text \<open>
  The element type of \<open>parseJSONArray\<close> after one more element of type \<open>vt\<close>:
  the first type seen, and \<open>interface{}\<close> once two types differ.
\<close>

definition nextElemType :: "gtype option \<Rightarrow> gtype option \<Rightarrow> gtype option" where
  "nextElemType elemType vt =
     (if elemType = None then vt
      else if elemType \<noteq> vt \<and> elemType \<noteq> Some typeOfInterface then Some typeOfInterface
      else elemType)"

text \<open>
  \<open>parseJSONValue\<close>, \<open>parseJSONToRawData\<close> and the loop of \<open>parseJSONArray\<close>. A type
  of \<open>None\<close> is the nil \<open>reflect.Type\<close> returned for a JSON null. In the array loop,
  \<open>reflect.Append\<close> of \<open>reflect.ValueOf(nil)\<close> panics, so a null element makes the
  whole call panic.
\<close>

fun parseJSONValue :: "int \<Rightarrow> gjson \<Rightarrow> (tree \<times> gtype option) outcome"
and parseJSONToRawData :: "int \<Rightarrow> RawData \<Rightarrow> (string \<times> gjson) list \<Rightarrow> RawData outcome"
and parseJSONArray :: "int \<Rightarrow> tree list \<Rightarrow> gtype option \<Rightarrow> gjson list
                        \<Rightarrow> (tree \<times> gtype option) outcome"
where
  "parseJSONValue ovf GTrue = Ok (TScalar (SBool True), Some typeOfBool)"
| "parseJSONValue ovf GFalse = Ok (TScalar (SBool False), Some typeOfBool)"
| "parseJSONValue ovf (GNumber f) =
     (if is_int64_number f
      then Ok (TScalar (SInt64 (int64_of_float64 ovf f)), Some typeOfInt64)
      else Ok (TScalar (SFloat64 f), Some typeOfFloat64))"
| "parseJSONValue ovf (GString s) = Ok (TScalar (SString s), Some typeOfString)"
| "parseJSONValue ovf (GObject kvs) =
     (case parseJSONToRawData ovf [] kvs of
        Ok d \<Rightarrow> Ok (TObject d, Some typeOfObject)
      | Err e \<Rightarrow> Err e | Panic \<Rightarrow> Panic | OutOfFuel \<Rightarrow> OutOfFuel)"
| "parseJSONValue ovf (GArray rs) = parseJSONArray ovf [] None rs"
| "parseJSONValue ovf GNull = Ok (TNil, None)"
| "parseJSONToRawData ovf d [] = Ok d"
| "parseJSONToRawData ovf d ((key, value) # rest) =
     (case parseJSONValue ovf value of
        Ok (v, _) \<Rightarrow> parseJSONToRawData ovf (mapassign key v d) rest
      | Err e \<Rightarrow> Err e | Panic \<Rightarrow> Panic | OutOfFuel \<Rightarrow> OutOfFuel)"
| "parseJSONArray ovf vals elemType [] =
     (if TNil \<in> set vals then Panic
      else Ok (TSlice (case elemType of None \<Rightarrow> typeOfInterface | Some t \<Rightarrow> t) vals,
               Some (SliceOf (case elemType of None \<Rightarrow> typeOfInterface | Some t \<Rightarrow> t))))"
| "parseJSONArray ovf vals elemType (r # rs) =
     (case parseJSONValue ovf r of
        Ok (val, vt) \<Rightarrow> parseJSONArray ovf (vals @ [val]) (nextElemType elemType vt) rs
      | Err e \<Rightarrow> Err e | Panic \<Rightarrow> Panic | OutOfFuel \<Rightarrow> OutOfFuel)"

text \<open>
  What the package takes from outside: \<open>gjson.Valid\<close> and \<open>gjson.Parse\<close>; the
  bytes that a \<open>json.Encoder\<close> with \<open>SetEscapeHTML(false)\<close> writes for a map on
  \<open>Encode\<close> (with a tab indent when the flag is set; nothing when it fails); and the
  implementation's result of an out-of-range \<open>int64(f)\<close>.
\<close>

record jsonlib =
  Valid :: "string \<Rightarrow> bool"
  GParse :: "string \<Rightarrow> gjson"
  Encode :: "RawData \<Rightarrow> bool \<Rightarrow> string"
  int64_overflow :: int

definition ParseJSON :: "jsonlib \<Rightarrow> string \<Rightarrow> Data outcome" where
  "ParseJSON lib str =
     (if \<not> Valid lib str then Err ErrInvalidJSON
      else case GParse lib str of
        GObject kvs \<Rightarrow>
          (case parseJSONToRawData (int64_overflow lib) [] kvs of
             Ok raw \<Rightarrow> if length raw \<noteq> 0 then Ok (Data (Some raw)) else Ok (Data None)
           | Err e \<Rightarrow> Err e | Panic \<Rightarrow> Panic | OutOfFuel \<Rightarrow> OutOfFuel)
      | _ \<Rightarrow> Err ErrNotObject)"

text \<open>\<open>strings.Index(str, ">")\<close> for a one-byte separator: \<open>None\<close> is \<open>-1\<close>.\<close>

fun Index :: "string \<Rightarrow> char \<Rightarrow> nat option" where
  "Index [] c = None"
| "Index (x # xs) c = (if x = c then Some 0 else map_option Suc (Index xs c))"

definition dataMetaBegin :: string where "dataMetaBegin = ''<''"
definition dataTypeJSON :: string where "dataTypeJSON = ''json''"
definition dataMetaEnd :: char where "dataMetaEnd = CHR ''>''"

definition Parse :: "jsonlib \<Rightarrow> string \<Rightarrow> Data outcome" where
  "Parse lib str =
     (if \<not> prefix dataMetaBegin str then Err ErrInvalidFormat
      else let str1 = drop (length dataMetaBegin) str in
        case Index str1 dataMetaEnd of
          None \<Rightarrow> Err ErrInvalidFormat
        | Some idx \<Rightarrow>
            let typeName = take idx str1; str2 = drop (idx + 1) str1 in
            if typeName = dataTypeJSON then ParseJSON lib str2
            else Err (ErrInvalidType typeName))"

section \<open>The store: maps and slices as references\<close>

text \<open>
  A Go map is a reference and a slice is a header over a backing array, so merging,
  deleting and patching are modelled over an explicit store. A value holds the type
  of its map (\<open>RawData\<close>, or the unnamed \<open>map[string]interface{}\<close>) and the address
  of the map (\<open>None\<close> is the nil map) or, for a slice, its element type, the address
  of its backing array (\<open>None\<close> for the nil slice) and its length; every slice of this
  package starts at index 0 of its array, and the capacity is the length of the array.
  A fresh array is as long as the slice made over it: the spare capacity that the Go
  runtime adds when a slice grows is left out. The entries of a map are a list, and a
  range loop visits them in the order of the list, one of the orders the runtime may
  choose.
\<close>

type_synonym addr = nat

datatype maptype = IsRawData | IsPlainMap

datatype val =
    VNil
  | VScalar scalar
  | VMap maptype "addr option"
  | VSlice gtype "addr option" nat

record store =
  maps :: "addr \<Rightarrow> (string \<times> val) list"
  arrays :: "addr \<Rightarrow> val list"
  fresh :: addr

definition empty_store :: store where
  "empty_store = \<lparr>maps = (\<lambda>_. []), arrays = (\<lambda>_. []), fresh = 0\<rparr>"

definition new_map :: "(string \<times> val) list \<Rightarrow> store \<Rightarrow> addr \<times> store" where
  "new_map m s = (fresh s, s\<lparr>maps := (maps s)(fresh s := m), fresh := Suc (fresh s)\<rparr>)"

definition new_array :: "val list \<Rightarrow> store \<Rightarrow> addr \<times> store" where
  "new_array xs s = (fresh s, s\<lparr>arrays := (arrays s)(fresh s := xs), fresh := Suc (fresh s)\<rparr>)"

text \<open>\<open>reflect.TypeOf\<close>; the nil interface has no type.\<close>

fun scalarType :: "scalar \<Rightarrow> gtype" where
  "scalarType (SBool _) = typeOfBool"
| "scalarType (SInt64 _) = typeOfInt64"
| "scalarType (SUint64 _) = typeOfUint64"
| "scalarType (SFloat64 _) = typeOfFloat64"
| "scalarType (SComplex128 _ _) = typeOfComplex128"
| "scalarType (SString _) = typeOfString"

fun TypeOf :: "val \<Rightarrow> gtype option" where
  "TypeOf VNil = None"
| "TypeOf (VScalar c) = Some (scalarType c)"
| "TypeOf (VMap IsRawData _) = Some typeOfObject"
| "TypeOf (VMap IsPlainMap _) = Some typeOfPlainMap"
| "TypeOf (VSlice t _ _) = Some (SliceOf t)"

text \<open>
  \<open>Value.MapIndex\<close>: \<open>None\<close> is the zero \<open>reflect.Value\<close> (no such key, or a nil map);
  \<open>Some VNil\<close> is a key that is present with a nil interface.
\<close>

definition MapIndex :: "store \<Rightarrow> addr option \<Rightarrow> string \<Rightarrow> val option" where
  "MapIndex s ma k = (case ma of None \<Rightarrow> None | Some a \<Rightarrow> map_of (maps s a) k)"

text \<open>\<open>delete(m, k)\<close>: a no-op on a nil map.\<close>

definition mapdelete :: "store \<Rightarrow> addr option \<Rightarrow> string \<Rightarrow> store" where
  "mapdelete s ma k =
     (case ma of None \<Rightarrow> s
      | Some a \<Rightarrow> s\<lparr>maps := (maps s)(a := AList.delete k (maps s a))\<rparr>)"

text \<open>
  \<open>Value.SetMapIndex\<close> and the statement \<open>d[k] = v\<close>: the zero Value deletes the
  key; storing into a nil map panics.
\<close>

definition SetMapIndex :: "store \<Rightarrow> addr option \<Rightarrow> string \<Rightarrow> val option \<Rightarrow> store outcome" where
  "SetMapIndex s ma k vo =
     (case vo of
        None \<Rightarrow> Ok (mapdelete s ma k)
      | Some v \<Rightarrow>
          (case ma of None \<Rightarrow> Panic
           | Some a \<Rightarrow> Ok (s\<lparr>maps := (maps s)(a := AList.update k v (maps s a))\<rparr>)))"

text \<open>
  \<open>reflect.AppendSlice(target, data)\<close> on two slices of one type: the elements of
  \<open>data\<close> are copied as they are (a map or slice among them stays shared) behind the
  \<open>l\<close> elements of \<open>target\<close>, in place when the capacity suffices, else into a fresh
  array.
\<close>

definition AppendSlice :: "store \<Rightarrow> gtype \<Rightarrow> addr option \<Rightarrow> nat \<Rightarrow> addr option \<Rightarrow> nat
                             \<Rightarrow> val \<times> store" where
  "AppendSlice s t a l b m =
     (let old = (case a of None \<Rightarrow> [] | Some x \<Rightarrow> arrays s x);
          elems = (case b of None \<Rightarrow> [] | Some y \<Rightarrow> take m (arrays s y))
      in if l + m \<le> length old
         then (case a of
                 None \<Rightarrow> (VSlice t None (l + m), s)
               | Some x \<Rightarrow>
                   (VSlice t (Some x) (l + m),
                    s\<lparr>arrays := (arrays s)(x := take l old @ elems @ drop (l + m) old)\<rparr>))
         else (let (x, s') = new_array (take l old @ elems) s
               in (VSlice t (Some x) (l + m), s')))"

text \<open>
  \<open>clone.Clone\<close> of \<open>github.com/huandu/go-clone\<close>: a deep copy; every map and every
  backing array reachable from the value is copied into a fresh one. The fuel bounds
  the nesting depth of the walk.
\<close>

fun clone :: "nat \<Rightarrow> store \<Rightarrow> val \<Rightarrow> (val \<times> store) outcome"
and clone_entries :: "nat \<Rightarrow> store \<Rightarrow> (string \<times> val) list \<Rightarrow> ((string \<times> val) list \<times> store) outcome"
and clone_elems :: "nat \<Rightarrow> store \<Rightarrow> val list \<Rightarrow> (val list \<times> store) outcome"
where
  "clone 0 s v = OutOfFuel"
| "clone (Suc n) s VNil = Ok (VNil, s)"
| "clone (Suc n) s (VScalar c) = Ok (VScalar c, s)"
| "clone (Suc n) s (VMap mt None) = Ok (VMap mt None, s)"
| "clone (Suc n) s (VMap mt (Some a)) =
     obind (clone_entries n s (maps s a)) (\<lambda>(es, s1).
       let (a', s2) = new_map es s1 in Ok (VMap mt (Some a'), s2))"
| "clone (Suc n) s (VSlice t None l) = Ok (VSlice t None l, s)"
| "clone (Suc n) s (VSlice t (Some b) l) =
     obind (clone_elems n s (take l (arrays s b))) (\<lambda>(xs, s1).
       let (b', s2) = new_array xs s1 in Ok (VSlice t (Some b') l, s2))"
| "clone_entries n s [] = Ok ([], s)"
| "clone_entries n s ((k, v) # es) =
     obind (clone n s v) (\<lambda>(v', s1).
     obind (clone_entries n s1 es) (\<lambda>(es', s2). Ok ((k, v') # es', s2)))"
| "clone_elems n s [] = Ok ([], s)"
| "clone_elems n s (v # vs) =
     obind (clone n s v) (\<lambda>(v', s1).
     obind (clone_elems n s1 vs) (\<lambda>(vs', s2). Ok (v' # vs', s2)))"

section \<open>The merge engine\<close>

text \<open>
  \<open>mergeValue(target, v)\<close>. \<open>target\<close> is the result of \<open>MapIndex\<close>: \<open>None\<close> is the
  zero Value. When the accumulator holds a nil interface, \<open>target.Elem()\<close> is the zero
  Value and \<open>target.Type()\<close> panics. The range loop over the incoming map visits the
  keys the map has when the loop starts and reads each value when it is visited.
  Two maps are merged only when their types are identical: a \<open>RawData\<close> coming in
  replaces a \<open>map[string]interface{}\<close>, and the other way round.
\<close>

fun mergeValue :: "nat \<Rightarrow> store \<Rightarrow> val option \<Rightarrow> val \<Rightarrow> (val option \<times> store) outcome"
and mergeEntries :: "nat \<Rightarrow> store \<Rightarrow> addr option \<Rightarrow> addr \<Rightarrow> string list \<Rightarrow> store outcome"
where
  "mergeValue 0 s target v = OutOfFuel"
| "mergeValue (Suc n) s target v =
     (if v = VNil then Ok (target, s)
      else case target of
        None \<Rightarrow> obind (clone n s v) (\<lambda>(v', s1). Ok (Some v', s1))
      | Some VNil \<Rightarrow> Panic
      | Some tv \<Rightarrow>
          if TypeOf tv = TypeOf v then
            (case (tv, v) of
               (VMap mt ma, VMap mt' mb) \<Rightarrow>
                 (let (a, s1) = (case ma of None \<Rightarrow> new_map [] s | Some a \<Rightarrow> (a, s))
                  in case mb of
                       None \<Rightarrow> Ok (Some (VMap mt (Some a)), s1)
                     | Some b \<Rightarrow>
                         obind (mergeEntries n s1 (Some a) b (map fst (maps s1 b)))
                           (\<lambda>s2. Ok (Some (VMap mt (Some a)), s2)))
             | (VSlice t a l, VSlice t' b m) \<Rightarrow>
                 (let (r, s1) = AppendSlice s t a l b m in Ok (Some r, s1))
             | _ \<Rightarrow> obind (clone n s v) (\<lambda>(v', s1). Ok (Some v', s1)))
          else obind (clone n s v) (\<lambda>(v', s1). Ok (Some v', s1)))"
| "mergeEntries n s target b [] = Ok s"
| "mergeEntries n s target b (k # ks) =
     (case map_of (maps s b) k of
        None \<Rightarrow> mergeEntries n s target b ks
      | Some v \<Rightarrow>
          obind (mergeValue n s (MapIndex s target k) v) (\<lambda>(to, s1).
          obind (SetMapIndex s1 target k to) (\<lambda>s2.
          mergeEntries n s2 target b ks)))"

text \<open>
  \<open>merge(target, data, remaining...)\<close>: \<open>target\<close> is a map Value, possibly the nil
  map; a \<open>Data\<close> is given by its field \<open>data\<close>.
\<close>

fun merge :: "nat \<Rightarrow> store \<Rightarrow> addr option \<Rightarrow> addr option \<Rightarrow> addr option list \<Rightarrow> store outcome" where
  "merge n s target dat remaining =
     obind (case dat of None \<Rightarrow> Ok s
            | Some b \<Rightarrow> mergeEntries n s target b (map fst (maps s b))) (\<lambda>s1.
       case remaining of [] \<Rightarrow> Ok s1 | r # rs \<Rightarrow> merge n s1 target r rs)"

definition Merge :: "nat \<Rightarrow> store \<Rightarrow> addr option list \<Rightarrow> (addr option \<times> store) outcome" where
  "Merge n s ds =
     (case ds of
        [] \<Rightarrow> Ok (None, s)
      | d # rest \<Rightarrow>
          (let (target, s1) = new_map [] s
           in obind (merge n s1 (Some target) d rest) (\<lambda>s2. Ok (Some target, s2))))"

definition MergeTo :: "nat \<Rightarrow> store \<Rightarrow> addr option \<Rightarrow> addr option list \<Rightarrow> store outcome" where
  "MergeTo n s target ds = (case ds of [] \<Rightarrow> Ok s | d # rest \<Rightarrow> merge n s target d rest)"

definition Clone :: "nat \<Rightarrow> store \<Rightarrow> addr option \<Rightarrow> (addr option \<times> store) outcome" where
  "Clone n s d = Merge n s [d]"

section \<open>The path resolver\<close>

text \<open>\<open>strings.Split(query, ".")\<close>: never empty; the empty string gives one empty field.\<close>

fun Split :: "string \<Rightarrow> char \<Rightarrow> string list" where
  "Split [] c = [[]]"
| "Split (x # xs) c =
     (if x = c then [] # Split xs c
      else (case Split xs c of [] \<Rightarrow> [[x]] | y # ys \<Rightarrow> (x # y) # ys))"

text \<open>
  \<open>strconv.ParseInt(s, 10, 64)\<close>: an optional sign, then one or more decimal digits;
  \<open>None\<close> is a syntax or range error.
\<close>

fun parse_digits :: "nat \<Rightarrow> string \<Rightarrow> nat option" where
  "parse_digits acc [] = Some acc"
| "parse_digits acc (c # cs) =
     (if CHR ''0'' \<le> c \<and> c \<le> CHR ''9''
      then parse_digits (10 * acc + (of_char c - 48)) cs else None)"

definition ParseInt :: "string \<Rightarrow> int option" where
  "ParseInt str =
     (case str of
        [] \<Rightarrow> None
      | c # cs \<Rightarrow>
          (let neg = (c = CHR ''-'');
               ds = (if c = CHR ''+'' \<or> c = CHR ''-'' then cs else str)
           in if ds = [] then None
              else case parse_digits 0 ds of
                     None \<Rightarrow> None
                   | Some u \<Rightarrow>
                       (let n = (if neg then - int u else int u)
                        in if n < MinInt64 \<or> MaxInt64 < n then None else Some n)))"

definition MaxInt32 :: int where "MaxInt32 = 2 ^ 31 - 1"

text \<open>
  The closure that \<open>delete\<close> passes to \<open>get\<close>, over its variable \<open>target\<close>. \<open>val\<close>
  is the value the closure receives with interfaces unwrapped; \<open>slot\<close> is the array
  cell the Value addresses, when it is addressable: an element of a slice whose element
  type is not an interface. A Value taken out of a map or out of an interface is not
  addressable, and \<open>Value.SetLen\<close> panics on it. The result \<open>None\<close> is the zero Value.
  Both map types are assignable to \<open>typeOfObject\<close>, the one map test of the closure.
\<close>

definition deleteModifier :: "string \<Rightarrow> store \<Rightarrow> val \<Rightarrow> (addr \<times> nat) option
                                \<Rightarrow> (val option \<times> store) outcome" where
  "deleteModifier target s val slot =
     (if target = [] then Ok (None, s)
      else case val of
        VNil \<Rightarrow> Ok (None, s)
      | VScalar c \<Rightarrow> Ok (Some val, s)
      | VMap mt ma \<Rightarrow> obind (SetMapIndex s ma target None) (\<lambda>s1. Ok (Some val, s1))
      | VSlice t b l \<Rightarrow>
          (case ParseInt target of
             None \<Rightarrow> Ok (Some val, s)
           | Some idx \<Rightarrow>
               if idx < 0 \<or> idx \<ge> int l then Ok (Some val, s)
               else if idx = int l - 1 then
                 (case slot of
                    None \<Rightarrow> Panic
                  | Some (arr, j) \<Rightarrow>
                      Ok (Some (VSlice t b (l - 1)),
                          s\<lparr>arrays := (arrays s)(arr := (arrays s arr)[j := VSlice t b (l - 1)])\<rparr>))
               else
                 (case b of
                    None \<Rightarrow> Ok (Some val, s)
                  | Some a \<Rightarrow>
                      (let old = arrays s a; i = nat idx
                       in Ok (Some (VSlice t b (l - 1)),
                              s\<lparr>arrays := (arrays s)
                                   (a := take i old @ drop (i + 1) (take l old) @ drop (l - 1) old)\<rparr>)))))"

text \<open>
  \<open>callModifier\<close>: the modifier of \<open>get\<close> is nil (\<open>None\<close>) or the closure of
  \<open>delete\<close> over \<open>target\<close>; it runs on the last field only.
\<close>

definition callModifier :: "string option \<Rightarrow> bool \<Rightarrow> store \<Rightarrow> val \<Rightarrow> (addr \<times> nat) option
                              \<Rightarrow> (val option \<times> store) outcome" where
  "callModifier modifier is_last s v slot =
     (case modifier of
        Some target \<Rightarrow> if is_last then deleteModifier target s v slot else Ok (Some v, s)
      | None \<Rightarrow> Ok (Some v, s))"

text \<open>
  The loop of \<open>get\<close> over the fields after the first. Each step writes the (possibly
  modified) element back into its container; \<open>kv.Set\<close> of the zero Value panics.
\<close>

fun get_loop :: "string option \<Rightarrow> store \<Rightarrow> val \<Rightarrow> string list \<Rightarrow> (val option \<times> store) outcome" where
  "get_loop modifier s val [] = Ok (Some val, s)"
| "get_loop modifier s val (f # flds) =
     (case val of
        VMap mt ma \<Rightarrow>
          (case MapIndex s ma f of
             None \<Rightarrow> Ok (None, s)
           | Some kv \<Rightarrow>
               obind (callModifier modifier (flds = []) s kv None) (\<lambda>(kv', s1).
               obind (SetMapIndex s1 ma f kv') (\<lambda>s2.
                 case kv' of None \<Rightarrow> Ok (None, s2) | Some v \<Rightarrow> get_loop modifier s2 v flds)))
      | VSlice t b l \<Rightarrow>
          (case ParseInt f of
             None \<Rightarrow> Ok (None, s)
           | Some n \<Rightarrow>
               if n < 0 \<or> n > MaxInt32 then Ok (None, s)
               else if nat n \<ge> l then Ok (None, s)
               else (case b of
                  None \<Rightarrow> Ok (None, s)
                | Some a \<Rightarrow>
                    obind (callModifier modifier (flds = []) s (arrays s a ! nat n)
                             (if t \<noteq> typeOfInterface then Some (a, nat n) else None))
                      (\<lambda>(kv', s1).
                         case kv' of
                           None \<Rightarrow> Panic
                         | Some v \<Rightarrow>
                             get_loop modifier
                               (s1\<lparr>arrays := (arrays s1)(a := (arrays s1 a)[nat n := v])\<rparr>)
                               v flds)))
      | _ \<Rightarrow> Ok (None, s))"

text \<open>\<open>RawData.get(fields, modifier)\<close>; the result is \<open>found\<close> and the store.\<close>

definition get :: "store \<Rightarrow> addr option \<Rightarrow> string list \<Rightarrow> string option
                     \<Rightarrow> (val option \<times> store) outcome" where
  "get s d flds modifier =
     (case flds of
        [] \<Rightarrow> callModifier modifier True s (VMap IsRawData d) None
      | k # rest \<Rightarrow>
          (case MapIndex s d k of
             None \<Rightarrow> Ok (None, s)
           | Some VNil \<Rightarrow> Ok (None, s)
           | Some val \<Rightarrow>
               if rest = [] then
                 (case modifier of
                    None \<Rightarrow> Ok (Some val, s)
                  | Some target \<Rightarrow>
                      obind (deleteModifier target s val None) (\<lambda>(val', s1).
                      obind (SetMapIndex s1 d k val') (\<lambda>s2. Ok (val', s2))))
               else get_loop modifier s val rest))"

text \<open>\<open>RawData.Get\<close> and \<open>RawData.Query\<close>: \<open>VNil\<close> is the nil result.\<close>

definition Get :: "store \<Rightarrow> addr option \<Rightarrow> string list \<Rightarrow> (val \<times> store) outcome" where
  "Get s d flds =
     (if flds = [] then Ok (VMap IsRawData d, s)
      else obind (get s d flds None) (\<lambda>(v, s1).
             case v of None \<Rightarrow> Ok (VNil, s1) | Some x \<Rightarrow> Ok (x, s1)))"

definition Query :: "store \<Rightarrow> addr option \<Rightarrow> string \<Rightarrow> (val \<times> store) outcome" where
  "Query s d query =
     (if query = [] then Ok (VMap IsRawData d, s) else Get s d (Split query (CHR ''.'')))"

text \<open>\<open>RawData.delete(query)\<close>\<close>

definition delete :: "store \<Rightarrow> addr option \<Rightarrow> string \<Rightarrow> store outcome" where
  "delete s d query =
     (let flds = Split query (CHR ''.'');
          target = last flds
      in obind (get s d (butlast flds) (Some target)) (\<lambda>(_, s1). Ok s1))"

text \<open>\<open>(*RawData).Delete(queries...)\<close>: the result is the new \<open>*d\<close> and the store.\<close>

fun delete_each :: "store \<Rightarrow> addr option \<Rightarrow> string list \<Rightarrow> store outcome" where
  "delete_each s d [] = Ok s"
| "delete_each s d (query # queries) = obind (delete s d query) (\<lambda>s1. delete_each s1 d queries)"

definition Delete :: "store \<Rightarrow> addr option \<Rightarrow> string list \<Rightarrow> (addr option \<times> store) outcome" where
  "Delete s d queries =
     (if [] \<in> set queries then Ok (None, s)
      else obind (delete_each s d queries) (\<lambda>s1. Ok (d, s1)))"

section \<open>The patch engine\<close>

text \<open>
  \<open>Updates\<close> is a \<open>map[string]Data\<close>: a list of entries, one for each key, in the
  order in which the range loop of \<open>ApplyTo\<close> happens to visit them.
\<close>

record PatchAction =
  Deletes :: "string list"
  Updates :: "(string \<times> addr option) list"

text \<open>The queries of an action in the order in which they are applied.\<close>

definition sorted_queries :: "PatchAction \<Rightarrow> string list" where
  "sorted_queries action = sort (map fst (Updates action))"

text \<open>\<open>a.Updates[query]\<close>: the zero \<open>Data\<close> for a key that the map does not have.\<close>

definition update_of :: "(string \<times> addr option) list \<Rightarrow> string \<Rightarrow> addr option" where
  "update_of updates query = (case map_of updates query of None \<Rightarrow> None | Some u \<Rightarrow> u)"

text \<open>
  The update loop of \<open>PatchAction.ApplyTo\<close>: the result is the error returned
  (\<open>None\<close> for nil) and the store as the call leaves it. The type assertion
  \<open>v.(RawData)\<close> fails on a \<open>map[string]interface{}\<close>.
\<close>

fun apply_updates :: "nat \<Rightarrow> store \<Rightarrow> addr option \<Rightarrow> (string \<times> addr option) list \<Rightarrow> string list
                        \<Rightarrow> (error option \<times> store) outcome" where
  "apply_updates n s dat updates [] = Ok (None, s)"
| "apply_updates n s dat updates (query # queries) =
     obind (Query s dat query) (\<lambda>(v, s1).
       case v of
         VNil \<Rightarrow> Ok (Some (ErrInvalidQuery query), s1)
       | VMap IsRawData d \<Rightarrow>
           obind (merge n s1 d (update_of updates query) [])
             (\<lambda>s2. apply_updates n s2 dat updates queries)
       | _ \<Rightarrow> Ok (Some (ErrUnsupportedTarget query), s1))"

text \<open>
  \<open>PatchAction.ApplyTo(target)\<close>: the result is the error, the new \<open>target.data\<close> and
  the store.
\<close>

definition ApplyTo_action :: "nat \<Rightarrow> store \<Rightarrow> addr option \<Rightarrow> PatchAction
                                \<Rightarrow> (error option \<times> addr option \<times> store) outcome" where
  "ApplyTo_action n s target action =
     obind (Delete s target (Deletes action)) (\<lambda>(dat, s1).
       if length (Updates action) = 0 then Ok (None, dat, s1)
       else obind (apply_updates n s1 dat (Updates action) (sorted_queries action))
              (\<lambda>(err, s2). Ok (err, dat, s2)))"

text \<open>\<open>Patch.ApplyTo(target)\<close> for a target that is not the nil pointer.\<close>

fun ApplyTo :: "nat \<Rightarrow> store \<Rightarrow> addr option \<Rightarrow> PatchAction list
                  \<Rightarrow> (error option \<times> addr option \<times> store) outcome" where
  "ApplyTo n s target [] = Ok (None, target, s)"
| "ApplyTo n s target (action # actions) =
     obind (ApplyTo_action n s target action) (\<lambda>(err, target1, s1).
       case err of
         Some e \<Rightarrow> Ok (Some e, target1, s1)
       | None \<Rightarrow> ApplyTo n s1 target1 actions)"

text \<open>\<open>Patch.Apply(d)\<close>: the result is \<open>err\<close>, \<open>applied\<close> and the store.\<close>

definition Apply :: "nat \<Rightarrow> store \<Rightarrow> addr option \<Rightarrow> PatchAction list
                       \<Rightarrow> (error option \<times> addr option \<times> store) outcome" where
  "Apply n s d actions =
     obind (Clone n s d) (\<lambda>(d1, s1).
     obind (ApplyTo n s1 d1 actions) (\<lambda>(err, d2, s2).
       case err of
         Some e \<Rightarrow> Ok (Some e, None, s2)
       | None \<Rightarrow> Ok (None, d2, s2)))"

section \<open>Reading and building values in the store\<close>

text \<open>
  \<open>load\<close> reads the value a reference denotes, as \<open>reflect.DeepEqual\<close> compares it;
  \<open>alloc\<close> builds a value in fresh maps and arrays that nothing else refers to.
\<close>

fun load :: "nat \<Rightarrow> store \<Rightarrow> val \<Rightarrow> tree option"
and load_entries :: "nat \<Rightarrow> store \<Rightarrow> (string \<times> val) list \<Rightarrow> (string \<times> tree) list option"
and load_elems :: "nat \<Rightarrow> store \<Rightarrow> val list \<Rightarrow> tree list option"
where
  "load 0 s v = None"
| "load (Suc n) s VNil = Some TNil"
| "load (Suc n) s (VScalar c) = Some (TScalar c)"
| "load (Suc n) s (VMap IsRawData None) = Some TNilObject"
| "load (Suc n) s (VMap IsRawData (Some a)) = map_option TObject (load_entries n s (maps s a))"
| "load (Suc n) s (VMap IsPlainMap None) = Some TNilPlainMap"
| "load (Suc n) s (VMap IsPlainMap (Some a)) = map_option TPlainMap (load_entries n s (maps s a))"
| "load (Suc n) s (VSlice t None l) = Some (TNilSlice t)"
| "load (Suc n) s (VSlice t (Some b) l) = map_option (TSlice t) (load_elems n s (take l (arrays s b)))"
| "load_entries n s [] = Some []"
| "load_entries n s ((k, v) # es) =
     (case load n s v of
        None \<Rightarrow> None
      | Some x \<Rightarrow> map_option (\<lambda>xs. (k, x) # xs) (load_entries n s es))"
| "load_elems n s [] = Some []"
| "load_elems n s (v # vs) =
     (case load n s v of
        None \<Rightarrow> None
      | Some x \<Rightarrow> map_option (\<lambda>xs. x # xs) (load_elems n s vs))"

fun alloc :: "store \<Rightarrow> tree \<Rightarrow> val \<times> store"
and alloc_entries :: "store \<Rightarrow> (string \<times> tree) list \<Rightarrow> (string \<times> val) list \<times> store"
and alloc_elems :: "store \<Rightarrow> tree list \<Rightarrow> val list \<times> store"
where
  "alloc s TNil = (VNil, s)"
| "alloc s (TScalar c) = (VScalar c, s)"
| "alloc s TNilObject = (VMap IsRawData None, s)"
| "alloc s (TObject es) =
     (let (es', s1) = alloc_entries s es; (a, s2) = new_map es' s1
      in (VMap IsRawData (Some a), s2))"
| "alloc s TNilPlainMap = (VMap IsPlainMap None, s)"
| "alloc s (TPlainMap es) =
     (let (es', s1) = alloc_entries s es; (a, s2) = new_map es' s1
      in (VMap IsPlainMap (Some a), s2))"
| "alloc s (TNilSlice t) = (VSlice t None 0, s)"
| "alloc s (TSlice t xs) =
     (let (xs', s1) = alloc_elems s xs; (b, s2) = new_array xs' s1
      in (VSlice t (Some b) (length xs), s2))"
| "alloc_entries s [] = ([], s)"
| "alloc_entries s ((k, x) # es) =
     (let (v, s1) = alloc s x; (es', s2) = alloc_entries s1 es in ((k, v) # es', s2))"
| "alloc_elems s [] = ([], s)"
| "alloc_elems s (x # xs) =
     (let (v, s1) = alloc s x; (xs', s2) = alloc_elems s1 xs in (v # xs', s2))"

text \<open>A \<open>Data\<close> in the store is its field \<open>data\<close>: the address of a map, or nil.\<close>

fun alloc_data :: "store \<Rightarrow> Data \<Rightarrow> addr option \<times> store" where
  "alloc_data s (Data None) = (None, s)"
| "alloc_data s (Data (Some m)) =
     (let (es, s1) = alloc_entries s m; (a, s2) = new_map es s1 in (Some a, s2))"

definition load_data :: "nat \<Rightarrow> store \<Rightarrow> addr option \<Rightarrow> tree option" where
  "load_data n s d = load n s (VMap IsRawData d)"

section \<open>The text codec: encoding\<close>

text \<open>
  \<open>Data.json(buf, pretty)\<close>: the buffer after the call. The newline that \<open>Encode\<close>
  writes last is cut off, by a test of the last byte of the whole buffer.
\<close>

fun json :: "jsonlib \<Rightarrow> string \<Rightarrow> Data \<Rightarrow> bool \<Rightarrow> string" where
  "json lib buf (Data None) pretty = buf @ ''{}''"
| "json lib buf (Data (Some m)) pretty =
     (if length m = 0 then buf @ ''{}''
      else (let dat = buf @ Encode lib m pretty
            in if length dat > 0 \<and> last dat = CHR 0x0A then butlast dat else dat))"

definition JSON :: "jsonlib \<Rightarrow> Data \<Rightarrow> bool \<Rightarrow> string" where
  "JSON lib d pretty = json lib [] d pretty"

definition String :: "jsonlib \<Rightarrow> Data \<Rightarrow> string" where
  "String lib d = json lib (dataMetaBegin @ dataTypeJSON @ [dataMetaEnd]) d False"

text \<open>
  The document that \<open>encoding/json\<close> writes for a value, as the \<open>gjson.Result\<close>
  that reads it back: a map is an object with its keys in ascending order, a slice an
  array, a nil map, a nil slice and a nil interface are \<open>null\<close>, a number stands for
  itself; a complex number, a NaN and an infinity make the encoder fail (\<open>None\<close>).
  This is the contract between the two libraries that the round trip rests on; it is
  used in no definition of the package.
\<close>

fun marshal :: "tree \<Rightarrow> gjson option"
and marshal_entries :: "(string \<times> tree) list \<Rightarrow> (string \<times> gjson) list option"
and marshal_elems :: "tree list \<Rightarrow> gjson list option"
where
  "marshal TNil = Some GNull"
| "marshal (TScalar (SBool b)) = Some (if b then GTrue else GFalse)"
| "marshal (TScalar (SInt64 n)) = Some (GNumber (Finite (rat_of_int n)))"
| "marshal (TScalar (SUint64 n)) = Some (GNumber (Finite (rat_of_nat n)))"
| "marshal (TScalar (SFloat64 (Finite q))) = Some (GNumber (Finite q))"
| "marshal (TScalar (SFloat64 _)) = None"
| "marshal (TScalar (SComplex128 _ _)) = None"
| "marshal (TScalar (SString s)) = Some (GString s)"
| "marshal (TObject es) = map_option GObject (marshal_entries es)"
| "marshal TNilObject = Some GNull"
| "marshal (TSlice t xs) = map_option GArray (marshal_elems xs)"
| "marshal (TNilSlice t) = Some GNull"
| "marshal (TPlainMap es) = map_option GObject (marshal_entries es)"
| "marshal TNilPlainMap = Some GNull"
| "marshal_entries [] = Some []"
| "marshal_entries ((k, v) # es) =
     (case marshal v of
        None \<Rightarrow> None
      | Some j \<Rightarrow> map_option (\<lambda>js. (k, j) # js) (marshal_entries es))"
| "marshal_elems [] = Some []"
| "marshal_elems (x # xs) =
     (case marshal x of
        None \<Rightarrow> None
      | Some j \<Rightarrow> map_option (\<lambda>js. j # js) (marshal_elems xs))"

fun marshal_data :: "Data \<Rightarrow> gjson option" where
  "marshal_data (Data None) = Some (GObject [])"
| "marshal_data (Data (Some m)) = marshal (TObject m)"

text \<open>\<open>reflect.TypeOf\<close> of a value; the nil interface has none.\<close>

fun typeOfTree :: "tree \<Rightarrow> gtype option" where
  "typeOfTree TNil = None"
| "typeOfTree (TScalar c) = Some (scalarType c)"
| "typeOfTree (TObject _) = Some typeOfObject"
| "typeOfTree TNilObject = Some typeOfObject"
| "typeOfTree (TSlice t _) = Some (SliceOf t)"
| "typeOfTree (TNilSlice t) = Some (SliceOf t)"
| "typeOfTree (TPlainMap _) = Some typeOfPlainMap"
| "typeOfTree TNilPlainMap = Some typeOfPlainMap"

text \<open>
  The element type that the loop of \<open>parseJSONArray\<close> ends with when it goes on
  from \<open>elemType\<close> over these elements, and the one it gives a whole slice of them.
\<close>

definition finalElemType :: "gtype option \<Rightarrow> tree list \<Rightarrow> gtype" where
  "finalElemType elemType xs =
     (case foldl nextElemType elemType (map typeOfTree xs) of
        None \<Rightarrow> typeOfInterface
      | Some t \<Rightarrow> t)"

definition decodedElemType :: "tree list \<Rightarrow> gtype" where
  "decodedElemType xs = finalElemType None xs"

text \<open>
  The values that the decoder can give back: booleans, strings, \<open>int64\<close>s, the
  \<open>float64\<close>s that it does not turn into an \<open>int64\<close>, maps that are not nil, with
  their keys in strictly ascending order and these values or nil as entries, and slices
  that are not nil, of these values, with the element type the decoder gives them.
  Every map the decoder builds is a \<open>RawData\<close>.
\<close>

fun decodable :: "tree \<Rightarrow> bool"
and decodable_entries :: "(string \<times> tree) list \<Rightarrow> bool"
and decodable_elems :: "tree list \<Rightarrow> bool"
where
  "decodable TNil = True"
| "decodable (TScalar (SBool b)) = True"
| "decodable (TScalar (SInt64 n)) = (MinInt64 \<le> n \<and> n \<le> MaxInt64)"
| "decodable (TScalar (SUint64 n)) = False"
| "decodable (TScalar (SFloat64 f)) =
     (case f of Finite q \<Rightarrow> \<not> is_int64_number f | _ \<Rightarrow> False)"
| "decodable (TScalar (SComplex128 re im)) = False"
| "decodable (TScalar (SString s)) = True"
| "decodable (TObject es) = (decodable_entries es \<and> sorted_wrt (<) (map fst es))"
| "decodable TNilObject = False"
| "decodable (TSlice t xs) = (decodable_elems xs \<and> t = decodedElemType xs)"
| "decodable (TNilSlice t) = False"
| "decodable (TPlainMap es) = False"
| "decodable TNilPlainMap = False"
| "decodable_entries [] = True"
| "decodable_entries ((k, v) # es) = (decodable v \<and> decodable_entries es)"
| "decodable_elems [] = True"
| "decodable_elems (x # xs) = (x \<noteq> TNil \<and> decodable x \<and> decodable_elems xs)"

text \<open>A \<open>Data\<close> the decoder can give back: the zero \<open>Data\<close>, or a map with an entry.\<close>

fun decodable_data :: "Data \<Rightarrow> bool" where
  "decodable_data (Data None) = True"
| "decodable_data (Data (Some m)) = (m \<noteq> [] \<and> decodable (TObject m))"

section \<open>Example inputs\<close>

text \<open>
  A JSON library that behaves as \<open>gjson\<close> does on the three bodies used below: it
  rejects the body with the trailing comma, and parses \<open>1\<close> as a number and
  \<open>{"a":1}\<close> as an object. Its encoder writes \<open>{"a":1}\<close> and a newline, as
  \<open>encoding/json\<close> does for the map \<open>{"a": 1}\<close>.
\<close>

definition example_lib :: jsonlib where
  "example_lib =
     \<lparr>Valid = (\<lambda>s. s \<noteq> ''{\"a\":1,}''),
      GParse = (\<lambda>s. if s = ''1'' then GNumber (Finite 1)
                      else GObject [(''a'', GNumber (Finite 1))]),
      Encode = (\<lambda>m pretty. ''{\"a\":1}'' @ [CHR 0x0A]),
      int64_overflow = MinInt64\<rparr>"

abbreviation I64 :: "int \<Rightarrow> tree" where
  "I64 n \<equiv> TScalar (SInt64 n)"

abbreviation Str :: "string \<Rightarrow> tree" where
  "Str x \<equiv> TScalar (SString x)"

abbreviation Bool :: "bool \<Rightarrow> tree" where
  "Bool b \<equiv> TScalar (SBool b)"

text \<open>
  A target in the store: \<open>{"arr": [1, 2, 3], "m": {"k": 1}}\<close>. Its array is at
  address 0, the map \<open>m\<close> at address 1 and the target's own map at address 2.
\<close>

definition example_target :: "addr option \<times> store" where
  "example_target =
     alloc_data empty_store
       (Data (Some [(''arr'', TSlice typeOfInt64 [I64 1, I64 2, I64 3]),
                    (''m'', TObject [(''k'', I64 1)])]))"

text \<open>
  Two updates in the store of that target: \<open>{"n": {}}\<close>, whose map is at address 4
  (its empty map \<open>n\<close> at address 3), and \<open>{"x": 2}\<close>, at address 5.
\<close>

definition example_updates :: "(addr option \<times> addr option) \<times> store" where
  "example_updates =
     (let (u1, s1) = alloc_data (snd example_target) (Data (Some [(''n'', TObject [])]));
          (u2, s2) = alloc_data s1 (Data (Some [(''x'', I64 2)]))
      in ((u1, u2), s2))"

section \<open>The text codec: properties of decoding\<close>

lemma Index_None_iff: "Index s c = None \<longleftrightarrow> c \<notin> set s"
  by (induction s) auto

lemma Index_first: "c \<notin> set t \<Longrightarrow> Index (t @ c # r) c = Some (length t)"
  by (induction t) auto

text \<open>
  Claim C9. \<open>Parse\<close> fails on every string that does not start with the \<open><\<close> of a
  type marker, and on every string whose marker is never closed by \<open>>\<close>, whatever
  follows ("invalid data string format"); a marker with a type other than \<open>json\<close>
  fails with "invalid data type"; a \<open><json>\<close> string whose body the JSON library
  finds invalid fails with "invalid JSON string", and one whose body is valid JSON
  but not an object fails with "JSON must be an object".
\<close>

theorem Parse_errors:
  "(\<not> prefix ''<'' str \<longrightarrow> Parse lib str = Err ErrInvalidFormat)
   \<and> (CHR ''>'' \<notin> set str2 \<longrightarrow> Parse lib (''<'' @ str2) = Err ErrInvalidFormat)
   \<and> (t \<noteq> ''json'' \<and> CHR ''>'' \<notin> set t \<longrightarrow>
        Parse lib (''<'' @ t @ ''>'' @ body) = Err (ErrInvalidType t))
   \<and> (\<not> Valid lib body1 \<longrightarrow> Parse lib (''<json>'' @ body1) = Err ErrInvalidJSON)
   \<and> (Valid lib body2 \<and> \<not> IsObject (GParse lib body2) \<longrightarrow>
        Parse lib (''<json>'' @ body2) = Err ErrNotObject)"
proof (intro conjI impI)
  assume "\<not> prefix ''<'' str"
  then show "Parse lib str = Err ErrInvalidFormat"
    by (simp add: Parse_def dataMetaBegin_def)
next
  assume "CHR ''>'' \<notin> set str2"
  then have "Index str2 CHR ''>'' = None"
    by (simp add: Index_None_iff)
  then show "Parse lib (''<'' @ str2) = Err ErrInvalidFormat"
    by (simp add: Parse_def dataMetaBegin_def dataMetaEnd_def)
next
  assume a: "t \<noteq> ''json'' \<and> CHR ''>'' \<notin> set t"
  then have "Index (t @ CHR ''>'' # body) CHR ''>'' = Some (length t)"
    by (simp add: Index_first)
  with a show "Parse lib (''<'' @ t @ ''>'' @ body) = Err (ErrInvalidType t)"
    by (simp add: Parse_def dataMetaBegin_def dataMetaEnd_def dataTypeJSON_def)
next
  have marker: "Index (''json>'' @ b) CHR ''>'' = Some 4" for b
    by simp
  { assume "\<not> Valid lib body1"
    then show "Parse lib (''<json>'' @ body1) = Err ErrInvalidJSON"
      using marker [of body1]
      by (simp add: Parse_def dataMetaBegin_def dataMetaEnd_def dataTypeJSON_def ParseJSON_def) }
  { assume "Valid lib body2 \<and> \<not> IsObject (GParse lib body2)"
    then show "Parse lib (''<json>'' @ body2) = Err ErrNotObject"
      using marker [of body2]
      by (cases "GParse lib body2")
         (simp_all add: Parse_def dataMetaBegin_def dataMetaEnd_def dataTypeJSON_def
            ParseJSON_def) }
qed

theorem Parse_errors_witness:
  "Parse example_lib ''{\"a\":1}'' = Err ErrInvalidFormat
   \<and> Parse example_lib ''<json{\"a\":1}'' = Err ErrInvalidFormat
   \<and> Parse example_lib ''<bson>{\"a\":1}'' = Err (ErrInvalidType ''bson'')
   \<and> Parse example_lib ''<json>{\"a\":1,}'' = Err ErrInvalidJSON
   \<and> Parse example_lib ''<json>1'' = Err ErrNotObject"
  using Parse_errors [where lib = example_lib and str = "''{\"a\":1}''"
      and ?str2.0 = "''json{\"a\":1}''" and t = "''bson''" and body = "''{\"a\":1}''"
      and ?body1.0 = "''{\"a\":1,}''" and ?body2.0 = "''1''"]
  by (simp add: example_lib_def)

text \<open>
  Claim C8, at the upper edge of the signed 64-bit range. The JSON number
  \<open>9223372036854775808\<close> is \<open>2 ^ 63\<close>, a float64 value that is integral and one more
  than \<open>math.MaxInt64\<close>, so it lies outside the range. The decoder compares it with
  the constant \<open>math.MaxInt64\<close> rounded to float64, which is \<open>2 ^ 63\<close> too, and makes
  it an \<open>int64\<close>, whose value is then what the implementation gives for an
  out-of-range conversion.
\<close>

theorem parseJSONValue_two_pow_63:
  "parseJSONValue ovf (GNumber (Finite (2 ^ 63))) = Ok (TScalar (SInt64 ovf), Some typeOfInt64)
   \<and> rat_of_int MaxInt64 < 2 ^ 63"
  by (simp add: float64_MaxInt64_def float64_MinInt64_def MaxInt64_def MinInt64_def)

section \<open>The round trip through the text codec\<close>

lemma mapassign_append:
  "\<forall>k' \<in> fst ` set acc. k' < k \<Longrightarrow> mapassign k v acc = acc @ [(k, v)]"
  by (induction acc) auto

lemma int64_number_roundtrip:
  "MinInt64 \<le> n \<Longrightarrow> n \<le> MaxInt64 \<Longrightarrow>
   is_int64_number (Finite (rat_of_int n)) \<and> int64_of_float64 ovf (Finite (rat_of_int n)) = n"
proof -
  assume a: "MinInt64 \<le> n" "n \<le> MaxInt64"
  have "rat_of_int (- (2 ^ 63)) \<le> rat_of_int n" "rat_of_int n \<le> rat_of_int (2 ^ 63)"
    using a unfolding MinInt64_def MaxInt64_def by (simp_all only: of_int_le_iff)
  then have "is_int64_number (Finite (rat_of_int n))"
    by (simp add: float64_MinInt64_def float64_MaxInt64_def)
  moreover have "rat_of_int MinInt64 \<le> rat_of_int n" "rat_of_int n \<le> rat_of_int MaxInt64"
    using a by simp_all
  then have "int64_of_float64 ovf (Finite (rat_of_int n)) = n"
    by simp
  ultimately show ?thesis by simp
qed

text \<open>
  The decoder gives back every decodable value from the document that stands for it:
  a map entry by entry, into a map whose keys so far are smaller, and a slice element
  by element, going on from the elements and the element type so far.
\<close>

lemma decode_marshal:
  "(decodable v \<longrightarrow>
      (\<exists>j. marshal v = Some j \<and> parseJSONValue ovf j = Ok (v, typeOfTree v)))"
  "(decodable_entries es \<longrightarrow>
      (\<exists>kvs. marshal_entries es = Some kvs
         \<and> (\<forall>acc. sorted_wrt (<) (map fst (acc @ es)) \<longrightarrow>
               parseJSONToRawData ovf acc kvs = Ok (acc @ es))))"
  "(decodable_elems xs \<longrightarrow>
      (\<exists>rs. marshal_elems xs = Some rs
         \<and> (\<forall>vals et. TNil \<notin> set vals \<longrightarrow>
               parseJSONArray ovf vals et rs
                 = Ok (TSlice (finalElemType et xs) (vals @ xs),
                       Some (SliceOf (finalElemType et xs))))))"
proof (induction v and es and xs rule: decodable_decodable_entries_decodable_elems.induct)
  case (3 n)
  then show ?case
    using int64_number_roundtrip [of n ovf] by simp
next
  case (5 f)
  then show ?case
    by (cases f) simp_all
next
  case (8 es)
  then show ?case
    by (auto simp: obind_def)
next
  case (10 t xs)
  then show ?case
    by (auto simp: decodedElemType_def)
next
  case (15 k v es)
  show ?case
  proof
    assume d: "decodable_entries ((k, v) # es)"
    with 15 obtain j kvs where j: "marshal v = Some j" "parseJSONValue ovf j = Ok (v, typeOfTree v)"
      and kvs: "marshal_entries es = Some kvs"
        "\<And>acc. sorted_wrt (<) (map fst (acc @ es)) \<Longrightarrow> parseJSONToRawData ovf acc kvs = Ok (acc @ es)"
      by auto
    have "parseJSONToRawData ovf acc ((k, j) # kvs) = Ok (acc @ (k, v) # es)"
      if s: "sorted_wrt (<) (map fst (acc @ (k, v) # es))" for acc
    proof -
      from s have "\<forall>k' \<in> fst ` set acc. k' < k"
        by (auto simp: sorted_wrt_append)
      then have "mapassign k v acc = acc @ [(k, v)]"
        by (rule mapassign_append)
      moreover from s have "sorted_wrt (<) (map fst ((acc @ [(k, v)]) @ es))"
        by simp
      ultimately show ?thesis
        using j kvs(2) [of "acc @ [(k, v)]"] by simp
    qed
    with j kvs show "\<exists>kvs. marshal_entries ((k, v) # es) = Some kvs
         \<and> (\<forall>acc. sorted_wrt (<) (map fst (acc @ (k, v) # es)) \<longrightarrow>
               parseJSONToRawData ovf acc kvs = Ok (acc @ (k, v) # es))"
      by auto
  qed
next
  case 16
  show ?case
    by (simp add: finalElemType_def)
next
  case (17 x xs)
  show ?case
  proof
    assume d: "decodable_elems (x # xs)"
    with 17 obtain j rs where j: "marshal x = Some j" "parseJSONValue ovf j = Ok (x, typeOfTree x)"
      and rs: "marshal_elems xs = Some rs"
        "\<And>vals et. TNil \<notin> set vals \<Longrightarrow> parseJSONArray ovf vals et rs
                 = Ok (TSlice (finalElemType et xs) (vals @ xs), Some (SliceOf (finalElemType et xs)))"
      by auto
    from d have x: "x \<noteq> TNil" by simp
    have f: "finalElemType et (x # xs) = finalElemType (nextElemType et (typeOfTree x)) xs" for et
      by (simp add: finalElemType_def)
    have "parseJSONArray ovf vals et (j # rs)
            = Ok (TSlice (finalElemType et (x # xs)) (vals @ x # xs),
                  Some (SliceOf (finalElemType et (x # xs))))"
      if "TNil \<notin> set vals" for vals et
      using that x j rs(2) [of "vals @ [x]" "nextElemType et (typeOfTree x)"] f
      by simp
    with j rs show "\<exists>rs. marshal_elems (x # xs) = Some rs
         \<and> (\<forall>vals et. TNil \<notin> set vals \<longrightarrow>
               parseJSONArray ovf vals et rs
                 = Ok (TSlice (finalElemType et (x # xs)) (vals @ x # xs),
                       Some (SliceOf (finalElemType et (x # xs)))))"
      by auto
  qed
qed simp_all

lemma json_body:
  "json lib (pre @ [c]) d pretty = (pre @ [c]) @ json lib [] d pretty" if "c \<noteq> CHR 0x0A"
proof (cases d)
  case (Data m)
  with that show ?thesis
    by (cases m) (auto simp: Let_def butlast_append)
qed

lemma String_eq: "String lib d = ''<json>'' @ JSON lib d False"
  using json_body [of "CHR ''>''" lib "''<json''" d False]
  by (simp add: String_def JSON_def dataMetaBegin_def dataTypeJSON_def dataMetaEnd_def)

lemma Parse_json_body: "Parse lib (''<json>'' @ body) = ParseJSON lib body"
  by (simp add: Parse_def dataMetaBegin_def dataTypeJSON_def dataMetaEnd_def)

text \<open>
  Claim C1, as amended. Let \<open>d\<close> be the zero \<open>Data\<close> or a \<open>Data\<close> with at least one
  entry whose values, at every depth, are nil (as the entry of a map), a \<open>bool\<close>, a
  \<open>string\<close>, an \<open>int64\<close>, a finite \<open>float64\<close> that is not an integer between
  \<open>-2^63\<close> and \<open>2^63\<close>, a map that is not nil, or a slice that is not nil, has no
  nil element and has the element type the decoder infers (the type its elements
  share, else \<open>interface{}\<close>, also when it is empty). If the JSON library accepts
  the JSON body that \<open>String\<close> writes and reads it back as the document that stands
  for \<open>d\<close>, then \<open>Parse(d.String())\<close> succeeds and equals \<open>d\<close>.
\<close>

theorem Parse_String_roundtrip:
  assumes "decodable_data d"
    and "Valid lib (JSON lib d False)"
    and "Some (GParse lib (JSON lib d False)) = marshal_data d"
  shows "Parse lib (String lib d) = Ok d"
proof (cases d)
  case (Data m)
  show ?thesis
  proof (cases m)
    case None
    with Data assms show ?thesis
      by (simp add: String_eq Parse_json_body [simplified] ParseJSON_def)
  next
    case (Some es)
    with Data assms(1) have d: "es \<noteq> []" "decodable_entries es" "sorted_wrt (<) (map fst ([] @ es))"
      by simp_all
    from decode_marshal(2) [of es "int64_overflow lib"] d obtain kvs where
      "marshal_entries es = Some kvs" "parseJSONToRawData (int64_overflow lib) [] kvs = Ok ([] @ es)"
      by blast
    with Data Some assms(2,3) d(1) show ?thesis
      by (auto simp: String_eq Parse_json_body [simplified] ParseJSON_def)
  qed
qed

theorem Parse_String_roundtrip_witness:
  "decodable_data (Data (Some [(''a'', I64 1)]))
   \<and> String example_lib (Data (Some [(''a'', I64 1)])) = ''<json>{\"a\":1}''
   \<and> Parse example_lib (String example_lib (Data (Some [(''a'', I64 1)])))
       = Ok (Data (Some [(''a'', I64 1)]))"
  using Parse_String_roundtrip [of "Data (Some [(''a'', I64 1)])" example_lib]
  by (simp add: example_lib_def JSON_def String_def dataMetaBegin_def dataTypeJSON_def
      dataMetaEnd_def MinInt64_def MaxInt64_def)

text \<open>
  Claim C1 as stated fails on a \<open>UInt64\<close>: no value that the decoder builds holds
  a \<open>uint64\<close>, so whatever the JSON library does, \<open>Parse\<close> does not give back
  \<open>{"u": uint64(1)}\<close> from its encoding.
\<close>

lemma parseJSONArray_slice:
  "parseJSONArray ovf vals et rs = Ok (v, t) \<Longrightarrow> \<exists>t' xs. v = TSlice t' xs"
  by (induction rs arbitrary: vals et)
     (auto split: if_splits outcome.splits prod.splits)

lemma parseJSONValue_no_uint64:
  "parseJSONValue ovf j = Ok (v, t) \<Longrightarrow> v \<noteq> TScalar (SUint64 n)"
  using parseJSONArray_slice [of ovf "[]" None _ v t]
  by (cases j) (auto split: if_splits outcome.splits)

lemma set_mapassign: "set (mapassign k v m) \<subseteq> insert (k, v) (set m)"
  by (induction m) (auto split: if_splits)

lemma parseJSONToRawData_no_uint64:
  "parseJSONToRawData ovf acc kvs = Ok raw \<Longrightarrow> (k, TScalar (SUint64 n)) \<in> set raw \<Longrightarrow>
   (k, TScalar (SUint64 n)) \<in> set acc"
proof (induction kvs arbitrary: acc)
  case Nil
  then show ?case by simp
next
  case (Cons kv kvs)
  obtain key j where kv: "kv = (key, j)" by (cases kv)
  with Cons.prems(1) obtain v t where v: "parseJSONValue ovf j = Ok (v, t)"
    and r: "parseJSONToRawData ovf (mapassign key v acc) kvs = Ok raw"
    by (auto split: outcome.splits)
  from Cons.IH [OF r Cons.prems(2)] set_mapassign [of key v acc]
  have "(k, TScalar (SUint64 n)) \<in> insert (key, v) (set acc)"
    by auto
  with parseJSONValue_no_uint64 [OF v] show ?case
    by auto
qed

theorem Parse_String_uint64_counterexample:
  "\<not> (\<exists>lib. Parse lib (String lib (Data (Some [(''u'', TScalar (SUint64 1))])))
               = Ok (Data (Some [(''u'', TScalar (SUint64 1))])))"
proof
  assume "\<exists>lib. Parse lib (String lib (Data (Some [(''u'', TScalar (SUint64 1))])))
               = Ok (Data (Some [(''u'', TScalar (SUint64 1))]))"
  then obtain lib where
    "ParseJSON lib (JSON lib (Data (Some [(''u'', TScalar (SUint64 1))])) False)
       = Ok (Data (Some [(''u'', TScalar (SUint64 1))]))"
    by (auto simp: String_eq Parse_json_body [simplified])
  then obtain kvs where
    "parseJSONToRawData (int64_overflow lib) [] kvs = Ok [(''u'', TScalar (SUint64 1))]"
    by (auto simp: ParseJSON_def split: if_splits gjson.splits outcome.splits)
  from parseJSONToRawData_no_uint64 [OF this, of "''u''" 1] show False
    by simp
qed

section \<open>Evaluation of the examples\<close>

lemmas store_defs =
  new_map_def new_array_def empty_store_def MapIndex_def SetMapIndex_def mapdelete_def
  AppendSlice_def

lemmas path_defs =
  Query_def Get_def get_def callModifier_def deleteModifier_def delete_def Delete_def
  ParseInt_def MaxInt32_def MinInt64_def MaxInt64_def

lemmas patch_defs =
  ApplyTo_action_def sorted_queries_def update_of_def Apply_def Clone_def Merge_def MergeTo_def
  load_data_def

lemmas eval_defs = obind_def store_defs path_defs patch_defs numeral_nat Let_def

lemma example_target_eq:
  "example_target =
     (Some 2,
      \<lparr>maps = (\<lambda>_. [])
         (1 := [(''k'', VScalar (SInt64 1))],
          2 := [(''arr'', VSlice typeOfInt64 (Some 0) 3), (''m'', VMap IsRawData (Some 1))]),
       arrays = (\<lambda>_. [])
         (0 := [VScalar (SInt64 1), VScalar (SInt64 2), VScalar (SInt64 3)]),
       fresh = 3\<rparr>)"
  by (simp add: example_target_def eval_defs)

lemma example_updates_eq:
  "example_updates =
     ((Some 4, Some 5),
      \<lparr>maps = (\<lambda>_. [])
         (1 := [(''k'', VScalar (SInt64 1))],
          2 := [(''arr'', VSlice typeOfInt64 (Some 0) 3), (''m'', VMap IsRawData (Some 1))],
          3 := [],
          4 := [(''n'', VMap IsRawData (Some 3))],
          5 := [(''x'', VScalar (SInt64 2))]),
       arrays = (\<lambda>_. [])
         (0 := [VScalar (SInt64 1), VScalar (SInt64 2), VScalar (SInt64 3)]),
       fresh = 6\<rparr>)"
  by (simp add: example_updates_def example_target_eq eval_defs)

text \<open>
  Two examples of the repository, run on the model. \<open>ExamplePatch\<close> of
  \<open>patch_test.go\<close> prints
  \<open>{"v1":[1,2,3],"v2":456,"v3":["first","third"],"v4":{"v4-1":"new","v4-2":{"new":true}}}\<close>,
  and the third case of \<open>TestMerge\<close> expects the slices of strings appended, the
  slice \<open>d\<close> replaced by the slice of another type, and the nil entry left out. The
  entries of a map stand in the order in which the model stored them.
\<close>

lemma ExamplePatch:
  "(let (d, s0) = alloc_data empty_store (Data (Some [
          (''v1'', TSlice typeOfInt64 [I64 1]),
          (''v2'', I64 123),
          (''v3'', TSlice typeOfString [Str ''first'', Str ''second'', Str ''third'']),
          (''v4'', TObject [(''v4-1'', Str ''old''), (''v4-2'', TObject [(''old'', Bool True)])])]));
        (u1, s1) = alloc_data s0
          (Data (Some [(''v1'', TSlice typeOfInt64 [I64 2, I64 3]), (''v2'', I64 456)]));
        (u2, s2) = alloc_data s1 (Data (Some [(''v4-1'', Str ''new'')]));
        (u3, s3) = alloc_data s2 (Data (Some [(''v4-2'', TObject [(''new'', Bool True)])]));
        patch = [\<lparr>Deletes = [''v2'', ''v3.1'', ''v4.v4-1''], Updates = []\<rparr>,
                 \<lparr>Deletes = [], Updates = [([], u1), (''v4'', u2)]\<rparr>,
                 \<lparr>Deletes = [''v4.v4-2''], Updates = [(''v4'', u3)]\<rparr>]
    in case ApplyTo 5 s3 d patch of
         Ok (err, target, s) \<Rightarrow> Some (err, load_data 5 s target)
       | _ \<Rightarrow> None)
   = Some (None,
       Some (TObject
         [(''v1'', TSlice typeOfInt64 [I64 1, I64 2, I64 3]),
          (''v3'', TSlice typeOfString [Str ''first'', Str ''third'']),
          (''v4'', TObject [(''v4-1'', Str ''new''), (''v4-2'', TObject [(''new'', Bool True)])]),
          (''v2'', I64 456)]))"
  by (simp add: eval_defs)

lemma TestMerge_typical:
  "(let (a, s0) = alloc_data empty_store (Data (Some [(''map'', TObject [])]));
        (b, s1) = alloc_data s0 (Data (Some [
          (''float'', TScalar (SFloat64 (Finite (- 4321 / 100)))),
          (''int'', I64 1234),
          (''map'', TObject [(''a'', Bool True), (''b'', Str ''string''),
                             (''d'', TSlice typeOfInt64 [I64 1, I64 2, I64 3])]),
          (''slice'', TSlice typeOfString [Str ''first'', Str ''second'']),
          (''str'', Str ''abcdefg'')]));
        (c, s2) = alloc_data s1 (Data (Some [
          (''map'', TObject [(''a'', Bool False), (''c'', I64 123),
                             (''d'', TSlice typeOfUint64 [TScalar (SUint64 4), TScalar (SUint64 5)])]),
          (''nil'', TNil),
          (''slice'', TSlice typeOfString [Str ''third'', Str ''forth'']),
          (''str'', Str ''zyxwvu''),
          (''uint'', I64 5678)]))
    in case Merge 5 s2 [a, b, c] of Ok (r, s) \<Rightarrow> load_data 5 s r | _ \<Rightarrow> None)
   = Some (TObject
       [(''map'', TObject
           [(''a'', Bool False), (''b'', Str ''string''),
            (''d'', TSlice typeOfUint64 [TScalar (SUint64 4), TScalar (SUint64 5)]),
            (''c'', I64 123)]),
        (''float'', TScalar (SFloat64 (Finite (- 4321 / 100)))),
        (''int'', I64 1234),
        (''slice'', TSlice typeOfString [Str ''first'', Str ''second'', Str ''third'', Str ''forth'']),
        (''str'', Str ''zyxwvu''),
        (''uint'', I64 5678)])"
  by (simp add: eval_defs)

section \<open>The order of the updates of an action\<close>

lemma strict_prefix_less: "strict_prefix p q \<Longrightarrow> p < (q :: string)"
proof -
  assume "strict_prefix p q"
  then obtain zs where "q = p @ zs" "zs \<noteq> []"
    by (auto simp: strict_prefix_def prefix_def)
  then obtain z zs' where "q = p @ z # zs'"
    by (cases zs) auto
  then show ?thesis
    by (simp add: list_less_def lexord_append_rightI)
qed

lemma sorted_smaller_before:
  fixes xs :: "string list"
  assumes "sorted xs" "p \<in> set xs" "q \<in> set xs" "p < q"
  shows "\<exists>us vs ws. xs = us @ p # vs @ q # ws"
proof -
  from \<open>q \<in> set xs\<close> obtain ys zs where q: "xs = ys @ q # zs"
    by (auto simp: in_set_conv_decomp)
  have "p \<notin> set (q # zs)"
  proof
    assume "p \<in> set (q # zs)"
    with assms(1) q have "q \<le> p" by (auto simp: sorted_append)
    with \<open>p < q\<close> show False by simp
  qed
  with \<open>p \<in> set xs\<close> q have "p \<in> set ys" by auto
  then obtain us vs where "ys = us @ p # vs"
    by (auto simp: in_set_conv_decomp)
  with q show ?thesis by auto
qed

lemma apply_updates_cong:
  "map_of us = map_of us' \<Longrightarrow> apply_updates n s dat us qs = apply_updates n s dat us' qs"
  by (induction qs arbitrary: s)
     (auto simp: obind_def update_of_def split: outcome.splits val.splits maptype.splits)



lemma Delete_Nil: "Delete s target [] = Ok (target, s)"
  by (simp add: Delete_def obind_def)

lemma ApplyTo_action_deletes_only:
  "ApplyTo_action n s target \<lparr>Deletes = ds, Updates = []\<rparr>
     = obind (Delete s target ds) (\<lambda>(dat, s1). Ok (None, dat, s1))"
  by (simp add: ApplyTo_action_def)

lemma ApplyTo_action_single_update:
  "ApplyTo_action n s target \<lparr>Deletes = [], Updates = [(query, u)]\<rparr>
     = obind (Query s target query) (\<lambda>(v, s1).
         case v of
           VNil \<Rightarrow> Ok (Some (ErrInvalidQuery query), target, s1)
         | VMap IsRawData d \<Rightarrow> obind (MergeTo n s1 d [u]) (\<lambda>s2. Ok (None, target, s2))
         | _ \<Rightarrow> Ok (Some (ErrUnsupportedTarget query), target, s1))"
  by (auto simp: ApplyTo_action_def Delete_Nil sorted_queries_def update_of_def MergeTo_def obind_def
      split: outcome.splits val.splits maptype.splits)

text \<open>
  The update loop over a list of queries is \<open>ApplyTo\<close> over the actions that hold
  one of these updates each, in the order of the list.
\<close>

lemma ApplyTo_single_updates:
  "ApplyTo n s dat (map (\<lambda>query. \<lparr>Deletes = [], Updates = [(query, update_of us query)]\<rparr>) qs)
     = obind (apply_updates n s dat us qs) (\<lambda>(err, s2). Ok (err, dat, s2))"
proof (induction qs arbitrary: s)
  case Nil
  show ?case by (simp add: obind_def)
next
  case (Cons q qs)
  show ?case
    by (auto simp: ApplyTo_action_single_update Cons.IH MergeTo_def obind_def
      split: outcome.splits val.splits maptype.splits)
qed

lemma ApplyTo_action_decomposed:
  "ApplyTo_action n s target action
     = ApplyTo n s target
         (\<lparr>Deletes = Deletes action, Updates = []\<rparr>
          # map (\<lambda>query. \<lparr>Deletes = [], Updates = [(query, update_of (Updates action) query)]\<rparr>)
              (sorted_queries action))"
proof (cases "Updates action = []")
  case True
  then show ?thesis
    by (auto simp: ApplyTo_action_def sorted_queries_def obind_def split: outcome.splits)
next
  case False
  then show ?thesis
    by (auto simp: ApplyTo_action_deletes_only ApplyTo_single_updates ApplyTo_action_def obind_def
        split: outcome.splits)
qed

lemma ApplyTo_action_permuted:
  assumes "distinct (map fst (Updates action))"
    and "mset (Updates action') = mset (Updates action)"
    and "Deletes action' = Deletes action"
  shows "ApplyTo_action n s target action' = ApplyTo_action n s target action"
proof -
  from assms(2) have m: "mset (map fst (Updates action')) = mset (map fst (Updates action))"
    by (metis mset_map)
  then have d: "distinct (map fst (Updates action'))"
    using assms(1) by (metis mset_eq_imp_distinct_iff)
  have "set (Updates action') = set (Updates action)"
    using assms(2) by (metis set_mset_mset)
  then have mo: "map_of (Updates action') = map_of (Updates action)"
    using assms(1) d by (simp add: map_of_inject_set)
  have q: "sorted_queries action' = sorted_queries action"
    unfolding sorted_queries_def using m by (simp add: properties_for_sort)
  have l: "length (Updates action') = length (Updates action)"
    using assms(2) by (metis size_mset)
  show ?thesis
    using assms(3) by (simp add: ApplyTo_action_def q l apply_updates_cong [OF mo] cong: if_cong)
qed

text \<open>
  Claim C4. \<open>ApplyTo\<close> of one action is \<open>ApplyTo\<close> of this sequence of actions, each
  run on what the one before has left: first an action with the deletes of the action
  and no update, then, for each update path in the order of \<open>sorted_queries\<close>, an
  action with that one update and no delete. An action with deletes only runs
  \<open>Delete\<close> over them and returns nil. An action with one update and no delete
  resolves the path in the target and merges the update into the \<open>RawData\<close> it
  finds, or returns the error for that path. So the updates of an action are applied
  after all of its deletes, one after the other, in the order of \<open>sorted_queries\<close>.
  That list is sorted in ascending lexicographic order and holds the keys of
  \<open>Updates\<close>; a key that is a proper prefix of another key of the action, as \<open>a\<close>
  is of \<open>a.b\<close> and the empty path is of every other, stands before it; and an action
  whose \<open>Updates\<close> lists the same entries in another order (the keys of a map are
  distinct) has the same outcome, from every store and target and with every fuel.
\<close>

theorem updates_applied_in_sorted_order:
  "ApplyTo_action n s target action
     = ApplyTo n s target
         (\<lparr>Deletes = Deletes action, Updates = []\<rparr>
          # map (\<lambda>query. \<lparr>Deletes = [], Updates = [(query, update_of (Updates action) query)]\<rparr>)
              (sorted_queries action))
   \<and> ApplyTo_action n s target \<lparr>Deletes = ds, Updates = []\<rparr>
       = obind (Delete s target ds) (\<lambda>(dat, s1). Ok (None, dat, s1))
   \<and> ApplyTo_action n s target \<lparr>Deletes = [], Updates = [(query, u)]\<rparr>
       = obind (Query s target query) (\<lambda>(v, s1).
           case v of
             VNil \<Rightarrow> Ok (Some (ErrInvalidQuery query), target, s1)
           | VMap IsRawData d \<Rightarrow> obind (MergeTo n s1 d [u]) (\<lambda>s2. Ok (None, target, s2))
           | _ \<Rightarrow> Ok (Some (ErrUnsupportedTarget query), target, s1))
   \<and> sorted (sorted_queries action)
   \<and> mset (sorted_queries action) = mset (map fst (Updates action))
   \<and> (p \<in> fst ` set (Updates action) \<and> q \<in> fst ` set (Updates action) \<and> strict_prefix p q
        \<longrightarrow> (\<exists>us vs ws. sorted_queries action = us @ p # vs @ q # ws))
   \<and> (distinct (map fst (Updates action)) \<and> mset (Updates action') = mset (Updates action)
        \<and> Deletes action' = Deletes action
        \<longrightarrow> ApplyTo_action n s target action' = ApplyTo_action n s target action)"
proof (intro conjI impI)
  show "ApplyTo_action n s target action
     = ApplyTo n s target
         (\<lparr>Deletes = Deletes action, Updates = []\<rparr>
          # map (\<lambda>query. \<lparr>Deletes = [], Updates = [(query, update_of (Updates action) query)]\<rparr>)
              (sorted_queries action))"
    by (rule ApplyTo_action_decomposed)
  show "ApplyTo_action n s target \<lparr>Deletes = ds, Updates = []\<rparr>
       = obind (Delete s target ds) (\<lambda>(dat, s1). Ok (None, dat, s1))"
    by (rule ApplyTo_action_deletes_only)
  show "ApplyTo_action n s target \<lparr>Deletes = [], Updates = [(query, u)]\<rparr>
       = obind (Query s target query) (\<lambda>(v, s1).
           case v of
             VNil \<Rightarrow> Ok (Some (ErrInvalidQuery query), target, s1)
           | VMap IsRawData d \<Rightarrow> obind (MergeTo n s1 d [u]) (\<lambda>s2. Ok (None, target, s2))
           | _ \<Rightarrow> Ok (Some (ErrUnsupportedTarget query), target, s1))"
    by (rule ApplyTo_action_single_update)
  show "sorted (sorted_queries action)"
    by (simp add: sorted_queries_def)
  show "mset (sorted_queries action) = mset (map fst (Updates action))"
    by (simp add: sorted_queries_def)
next
  assume a: "p \<in> fst ` set (Updates action) \<and> q \<in> fst ` set (Updates action) \<and> strict_prefix p q"
  then have "p < q" by (simp add: strict_prefix_less)
  then show "\<exists>us vs ws. sorted_queries action = us @ p # vs @ q # ws"
    using a sorted_smaller_before [of "sorted_queries action" p q]
    by (simp add: sorted_queries_def)
next
  assume "distinct (map fst (Updates action)) \<and> mset (Updates action') = mset (Updates action)
    \<and> Deletes action' = Deletes action"
  then show "ApplyTo_action n s target action' = ApplyTo_action n s target action"
    by (simp add: ApplyTo_action_permuted)
qed

text \<open>
  On the example: the target is \<open>{"arr": [1, 2, 3], "m": {"k": 1}}\<close>, the action
  deletes \<open>m\<close> and updates \<open>n\<close> with \<open>{"x": 2}\<close> and the empty path with
  \<open>{"n": {}}\<close>. The update at the empty path runs first and makes the entry \<open>n\<close>
  that the update at \<open>n\<close> is then merged into.
\<close>

theorem updates_applied_in_sorted_order_witness:
  "(case ApplyTo_action 5 (snd example_updates) (fst example_target)
           \<lparr>Deletes = [''m''], Updates = [(''n'', Some 5), ([], Some 4)]\<rparr> of
      Ok (err, target, s) \<Rightarrow> Some (err, load_data 5 s target)
    | _ \<Rightarrow> None)
     = Some (None,
         Some (TObject [(''arr'', TSlice typeOfInt64 [I64 1, I64 2, I64 3]),
                        (''n'', TObject [(''x'', I64 2)])]))
   \<and> ApplyTo_action 5 (snd example_updates) (fst example_target)
        \<lparr>Deletes = [''m''], Updates = [(''n'', Some 5), ([], Some 4)]\<rparr>
       = ApplyTo 5 (snd example_updates) (fst example_target)
           [\<lparr>Deletes = [''m''], Updates = []\<rparr>,
            \<lparr>Deletes = [], Updates = [([], Some 4)]\<rparr>,
            \<lparr>Deletes = [], Updates = [(''n'', Some 5)]\<rparr>]
   \<and> sorted_queries \<lparr>Deletes = [], Updates = [(''a.b'', Some 1), (''a'', None), ([], Some 2)]\<rparr>
       = [[], ''a'', ''a.b'']
   \<and> (\<exists>us vs ws. sorted_queries \<lparr>Deletes = [], Updates = [(''a.b'', Some 1), (''a'', None), ([], Some 2)]\<rparr>
         = us @ ''a'' # vs @ ''a.b'' # ws)
   \<and> ApplyTo_action 5 (snd example_updates) (fst example_target)
        \<lparr>Deletes = [''m''], Updates = [([], Some 4), (''n'', Some 5)]\<rparr>
     = ApplyTo_action 5 (snd example_updates) (fst example_target)
        \<lparr>Deletes = [''m''], Updates = [(''n'', Some 5), ([], Some 4)]\<rparr>"
  using updates_applied_in_sorted_order
    [where action = "\<lparr>Deletes = [], Updates = [(''a.b'', Some 1), (''a'', None), ([], Some 2)]\<rparr>"
       and p = "''a''" and q = "''a.b''"]
    updates_applied_in_sorted_order
    [where action = "\<lparr>Deletes = [''m''], Updates = [(''n'', Some 5), ([], Some 4)]\<rparr>"
       and action' = "\<lparr>Deletes = [''m''], Updates = [([], Some 4), (''n'', Some 5)]\<rparr>"
       and n = 5 and s = "snd example_updates" and target = "fst example_target"]
  by (simp add: example_updates_eq example_target_eq eval_defs)

text \<open>
  The order matters on this example: with the two updates the other way round, the
  update at \<open>n\<close> finds no entry \<open>n\<close> and the call ends with the invalid-query error.
\<close>

lemma updates_in_descending_order_fail:
  "(case ApplyTo 5 (snd example_updates) (fst example_target)
           [\<lparr>Deletes = [''m''], Updates = []\<rparr>,
            \<lparr>Deletes = [], Updates = [(''n'', Some 5)]\<rparr>,
            \<lparr>Deletes = [], Updates = [([], Some 4)]\<rparr>] of
      Ok (err, target, s) \<Rightarrow> Some (err, load_data 5 s target)
    | _ \<Rightarrow> None)
     = Some (Some (ErrInvalidQuery ''n''),
         Some (TObject [(''arr'', TSlice typeOfInt64 [I64 1, I64 2, I64 3])]))"
  by (simp add: example_updates_eq example_target_eq eval_defs)

section \<open>Reading a path leaves the store alone\<close>

lemma SetMapIndex_same:
  "MapIndex s ma k = Some v \<Longrightarrow> SetMapIndex s ma k (Some v) = Ok s"
  by (cases ma) (simp_all add: MapIndex_def SetMapIndex_def AList.update_triv)

lemma store_arrays_same:
  "arrays s a ! n = x \<Longrightarrow> s\<lparr>arrays := (arrays s)(a := (arrays s a)[n := x])\<rparr> = s"
  by auto

lemma get_loop_VSlice_miss:
  "\<not> (\<exists>n a. ParseInt f = Some n \<and> \<not> (n < 0 \<or> n > MaxInt32) \<and> nat n < l \<and> b = Some a) \<Longrightarrow>
   get_loop m s (VSlice ty b l) (f # flds) = Ok (None, s)"
proof (cases "ParseInt f")
  case None
  then show ?thesis by simp
next
  case (Some n)
  assume "\<not> (\<exists>n a. ParseInt f = Some n \<and> \<not> (n < 0 \<or> n > MaxInt32) \<and> nat n < l \<and> b = Some a)"
  with Some have "n < 0 \<or> n > MaxInt32 \<or> l \<le> nat n \<or> b = None"
    by (cases b) auto
  with Some show ?thesis
    by (auto split: option.splits)
qed

lemma get_loop_read_only: "\<exists>r. get_loop None s v flds = Ok (r, s)"
proof (induction flds arbitrary: v)
  case Nil
  show ?case by simp
next
  case (Cons f flds)
  show ?case
  proof (cases v)
    case (VMap mt ma)
    show ?thesis
    proof (cases "MapIndex s ma f")
      case None
      with VMap show ?thesis by simp
    next
      case (Some kv)
      with VMap Cons.IH [of kv] show ?thesis
        by (simp add: callModifier_def obind_def SetMapIndex_same)
    qed
  next
    case (VSlice ty b l)
    show ?thesis
    proof (cases "\<exists>n a. ParseInt f = Some n \<and> \<not> (n < 0 \<or> n > MaxInt32) \<and> nat n < l \<and> b = Some a")
      case False
      with VSlice show ?thesis
        by (simp add: get_loop_VSlice_miss [OF False] del: get_loop.simps)
    next
      case True
      then obtain n a where "ParseInt f = Some n" "\<not> (n < 0 \<or> n > MaxInt32)" "nat n < l" "b = Some a"
        by blast
      with VSlice Cons.IH [of "arrays s a ! nat n"] show ?thesis
        by (simp add: callModifier_def obind_def store_arrays_same)
    qed
  qed simp_all
qed

lemma get_read_only: "\<exists>r. get s d flds None = Ok (r, s)"
proof (cases flds)
  case Nil
  then show ?thesis by (simp add: get_def callModifier_def)
next
  case (Cons k rest)
  then show ?thesis
    using get_loop_read_only [of s _ rest]
    by (auto simp: get_def split: option.splits val.splits)
qed

lemma Query_read_only: "\<exists>v. Query s d query = Ok (v, s)"
  using get_read_only [of s d "Split query (CHR ''.'')"]
  by (auto simp: Query_def Get_def obind_def split: option.splits)

section \<open>The errors of a patch action\<close>

lemma apply_updates_error:
  "apply_updates n s dat us qs = Ok (Some e, s') \<Longrightarrow>
     \<exists>query \<in> set qs.
       (e = ErrInvalidQuery query \<and> Query s' dat query = Ok (VNil, s'))
       \<or> (e = ErrUnsupportedTarget query
           \<and> (\<exists>v. Query s' dat query = Ok (v, s') \<and> v \<noteq> VNil \<and> (\<forall>d. v \<noteq> VMap IsRawData d)))"
proof (induction qs arbitrary: s)
  case Nil
  then show ?case by simp
next
  case (Cons query qs)
  obtain v where q: "Query s dat query = Ok (v, s)"
    using Query_read_only by blast
  show ?case
  proof (cases v)
    case (VMap mt d)
    show ?thesis
    proof (cases mt)
      case IsRawData
      with VMap q Cons.prems obtain s2 where
        "apply_updates n s2 dat us qs = Ok (Some e, s')"
        by (auto simp: obind_def split: outcome.splits)
      from Cons.IH [OF this] show ?thesis by auto
    next
      case IsPlainMap
      with VMap q Cons.prems show ?thesis
        by (auto simp: obind_def)
    qed
  qed (use q Cons.prems in \<open>auto simp: obind_def\<close>)
qed

lemma deleteModifier_no_error: "deleteModifier t s v slot \<noteq> Err e"
  by (auto simp: deleteModifier_def SetMapIndex_def obind_def Let_def split: val.splits option.splits)

lemma get_loop_no_error: "get_loop m s v flds \<noteq> Err e"
proof (induction flds arbitrary: s v)
  case Nil
  show ?case by simp
next
  case (Cons f flds)
  have c: "callModifier m b s kv slot \<noteq> Err e" for b s kv slot
    by (auto simp: callModifier_def deleteModifier_no_error split: option.splits)
  show ?case
  proof (cases v)
    case (VMap mt ma)
    then show ?thesis
      using Cons.IH c
      by (auto simp: obind_def SetMapIndex_def split: option.splits outcome.splits)
  next
    case (VSlice ty b l)
    then show ?thesis
      using Cons.IH c
      by (auto simp: obind_def split: option.splits outcome.splits)
  qed simp_all
qed

lemma get_no_error: "get s d flds m \<noteq> Err e"
  using get_loop_no_error deleteModifier_no_error
  by (auto simp: get_def callModifier_def obind_def SetMapIndex_def
      split: list.splits option.splits val.splits outcome.splits)

lemma delete_each_no_error: "delete_each s d queries \<noteq> Err e"
  using get_no_error
  by (induction queries arbitrary: s)
     (auto simp: delete_def obind_def Let_def split: outcome.splits)

lemma Delete_no_error: "Delete s d queries \<noteq> Err e"
  using delete_each_no_error
  by (auto simp: Delete_def obind_def split: outcome.splits)

text \<open>The update loop over two lists of queries, one after the other.\<close>

lemma apply_updates_append:
  "apply_updates n s dat us (xs @ ys)
     = obind (apply_updates n s dat us xs) (\<lambda>(err, s1).
         case err of
           Some e \<Rightarrow> Ok (Some e, s1)
         | None \<Rightarrow> apply_updates n s1 dat us ys)"
proof (induction xs arbitrary: s)
  case Nil
  show ?case by (simp add: obind_def)
next
  case (Cons x xs)
  show ?case
    by (auto simp: Cons.IH obind_def split: outcome.splits val.splits maptype.splits)
qed

text \<open>
  The two errors of an action. When \<open>ApplyTo\<close> of an action returns an error, the
  error names one of the action's update paths: it is the invalid-query error and the
  path resolves to nil in the target as the call leaves it, or it is the
  unsupported-type error and the path resolves to a value that is neither nil nor a
  \<open>RawData\<close> (a scalar, a slice, or a \<open>map[string]interface{}\<close>). Conversely, at
  every position of the sorted order: when the deletes have returned, the updates
  before a path have been applied without error, and the path then resolves to nil,
  the call returns the invalid-query error for that path; when it resolves to a value
  that is neither nil nor a \<open>RawData\<close>, the call returns the unsupported-type error
  for it. An action without updates returns no error.
\<close>

lemma ApplyTo_action_update_errors:
  "(ApplyTo_action n s target action = Ok (Some e, dat, s') \<longrightarrow>
      (\<exists>query \<in> fst ` set (Updates action).
         (e = ErrInvalidQuery query \<and> Query s' dat query = Ok (VNil, s'))
         \<or> (e = ErrUnsupportedTarget query
             \<and> (\<exists>v. Query s' dat query = Ok (v, s') \<and> v \<noteq> VNil \<and> (\<forall>d. v \<noteq> VMap IsRawData d)))))
   \<and> (Delete s target (Deletes action) = Ok (dat1, s1)
        \<and> sorted_queries action = qs1 @ query1 # qs2
        \<and> apply_updates n s1 dat1 (Updates action) qs1 = Ok (None, s2)
        \<and> Query s2 dat1 query1 = Ok (VNil, s2)
        \<longrightarrow> ApplyTo_action n s target action = Ok (Some (ErrInvalidQuery query1), dat1, s2))
   \<and> (Delete s target (Deletes action) = Ok (dat1, s1)
        \<and> sorted_queries action = qs1 @ query1 # qs2
        \<and> apply_updates n s1 dat1 (Updates action) qs1 = Ok (None, s2)
        \<and> Query s2 dat1 query1 = Ok (v1, s2) \<and> v1 \<noteq> VNil \<and> (\<forall>d. v1 \<noteq> VMap IsRawData d)
        \<longrightarrow> ApplyTo_action n s target action = Ok (Some (ErrUnsupportedTarget query1), dat1, s2))
   \<and> (Updates action = [] \<longrightarrow> ApplyTo_action n s target action \<noteq> Ok (Some e, dat, s'))"
proof (intro conjI impI)
  assume a: "ApplyTo_action n s target action = Ok (Some e, dat, s')"
  then obtain s0 where
    "apply_updates n s0 dat (Updates action) (sorted_queries action) = Ok (Some e, s')"
    by (auto simp: ApplyTo_action_def obind_def split: outcome.splits if_splits)
  from apply_updates_error [OF this]
  show "\<exists>query \<in> fst ` set (Updates action).
         (e = ErrInvalidQuery query \<and> Query s' dat query = Ok (VNil, s'))
         \<or> (e = ErrUnsupportedTarget query
             \<and> (\<exists>v. Query s' dat query = Ok (v, s') \<and> v \<noteq> VNil \<and> (\<forall>d. v \<noteq> VMap IsRawData d)))"
    by (simp add: sorted_queries_def)
next
  assume a: "Delete s target (Deletes action) = Ok (dat1, s1)
        \<and> sorted_queries action = qs1 @ query1 # qs2
        \<and> apply_updates n s1 dat1 (Updates action) qs1 = Ok (None, s2)
        \<and> Query s2 dat1 query1 = Ok (VNil, s2)"
  then have "Updates action \<noteq> []"
    by (auto simp: sorted_queries_def)
  with a show "ApplyTo_action n s target action = Ok (Some (ErrInvalidQuery query1), dat1, s2)"
    by (simp add: ApplyTo_action_def apply_updates_append obind_def)
next
  assume a: "Delete s target (Deletes action) = Ok (dat1, s1)
        \<and> sorted_queries action = qs1 @ query1 # qs2
        \<and> apply_updates n s1 dat1 (Updates action) qs1 = Ok (None, s2)
        \<and> Query s2 dat1 query1 = Ok (v1, s2) \<and> v1 \<noteq> VNil \<and> (\<forall>d. v1 \<noteq> VMap IsRawData d)"
  then have "Updates action \<noteq> []"
    by (auto simp: sorted_queries_def)
  with a show "ApplyTo_action n s target action = Ok (Some (ErrUnsupportedTarget query1), dat1, s2)"
    by (cases v1)
       (auto simp: ApplyTo_action_def apply_updates_append obind_def split: maptype.splits)
next
  assume "Updates action = []"
  then show "ApplyTo_action n s target action \<noteq> Ok (Some e, dat, s')"
    by (auto simp: ApplyTo_action_def obind_def split: outcome.splits)
qed

text \<open>
  On the target \<open>{"arr": [1, 2, 3], "m": {"k": 1}}\<close>: the update at \<open>foo\<close> fails
  with the invalid-query error and the update at \<open>arr\<close> with the unsupported-type
  error, also behind an update at \<open>m\<close> that has been applied; deletes of paths that
  do not resolve return nil.
\<close>

lemma ApplyTo_action_errors_examples:
  "(case ApplyTo_action 5 (snd example_updates) (fst example_target)
           \<lparr>Deletes = [], Updates = [(''foo'', Some 5)]\<rparr> of
      Ok (err, target, s) \<Rightarrow> Some (err, load_data 5 s target)
    | _ \<Rightarrow> None)
     = Some (Some (ErrInvalidQuery ''foo''),
         Some (TObject [(''arr'', TSlice typeOfInt64 [I64 1, I64 2, I64 3]),
                        (''m'', TObject [(''k'', I64 1)])]))"
  "(case ApplyTo_action 5 (snd example_updates) (fst example_target)
           \<lparr>Deletes = [], Updates = [(''arr'', Some 5)]\<rparr> of
      Ok (err, target, s) \<Rightarrow> Some (err, load_data 5 s target)
    | _ \<Rightarrow> None)
     = Some (Some (ErrUnsupportedTarget ''arr''),
         Some (TObject [(''arr'', TSlice typeOfInt64 [I64 1, I64 2, I64 3]),
                        (''m'', TObject [(''k'', I64 1)])]))"
  "(case ApplyTo_action 5 (snd example_updates) (fst example_target)
           \<lparr>Deletes = [], Updates = [(''zz'', Some 5), (''m'', Some 5)]\<rparr> of
      Ok (err, target, s) \<Rightarrow> Some (err, load_data 5 s target)
    | _ \<Rightarrow> None)
     = Some (Some (ErrInvalidQuery ''zz''),
         Some (TObject [(''arr'', TSlice typeOfInt64 [I64 1, I64 2, I64 3]),
                        (''m'', TObject [(''k'', I64 1), (''x'', I64 2)])]))"
  "(case ApplyTo_action 5 (snd example_updates) (fst example_target)
           \<lparr>Deletes = [''arr.3'', ''foo''], Updates = []\<rparr> of
      Ok (err, target, s) \<Rightarrow> Some (err, load_data 5 s target)
    | _ \<Rightarrow> None)
     = Some (None,
         Some (TObject [(''arr'', TSlice typeOfInt64 [I64 1, I64 2, I64 3]),
                        (''m'', TObject [(''k'', I64 1)])]))"
  by (simp_all add: example_updates_eq example_target_eq eval_defs)

text \<open>
  A \<open>map[string]interface{}\<close> is a mapping that is no \<open>RawData\<close>. The target is
  \<open>{"l": [{"x": 1}]}\<close> with \<open>l\<close> a \<open>[]map[string]interface{}\<close>, as the encoder
  builds it from a slice of that type. The update at \<open>l.0\<close> fails with the
  unsupported-type error; the delete of \<open>l.0.x\<close> removes the key.
\<close>

lemma plain_map_examples:
  "(let (d, s0) = alloc_data empty_store
                    (Data (Some [(''l'', TSlice typeOfPlainMap [TPlainMap [(''x'', I64 1)]])]));
        (u, s1) = alloc_data s0 (Data (Some [(''y'', I64 2)]))
    in case ApplyTo_action 5 s1 d \<lparr>Deletes = [], Updates = [(''l.0'', u)]\<rparr> of
         Ok (err, target, s) \<Rightarrow> Some (err, load_data 5 s target)
       | _ \<Rightarrow> None)
     = Some (Some (ErrUnsupportedTarget ''l.0''),
         Some (TObject [(''l'', TSlice typeOfPlainMap [TPlainMap [(''x'', I64 1)]])]))"
  "(let (d, s0) = alloc_data empty_store
                    (Data (Some [(''l'', TSlice typeOfPlainMap [TPlainMap [(''x'', I64 1)]])]))
    in case delete s0 d ''l.0.x'' of Ok s1 \<Rightarrow> load_data 5 s1 d | _ \<Rightarrow> None)
     = Some (TObject [(''l'', TSlice typeOfPlainMap [TPlainMap []])])"
  by (simp_all add: eval_defs)

text \<open>
  Claim C5. A delete path can end the call without a result: the target is
  \<open>{"arr": [1, 2, 3], "m": {"k": 1}}\<close> and the one delete path of the action is
  \<open>arr.2\<close>, the last element of the slice. For the last index the closure of
  \<open>delete\<close> calls \<open>Value.SetLen\<close> on the slice; it has taken that slice out of
  the interface held by the map entry, so the Value is not addressable and \<open>SetLen\<close>
  panics. The claim says that a delete path never produces an error.
\<close>

theorem ApplyTo_action_delete_path_panics:
  "ApplyTo_action 5 (snd example_target) (fst example_target)
     \<lparr>Deletes = [''arr.2''], Updates = []\<rparr> = Panic
   \<and> Delete (snd example_target) (fst example_target) [''arr.2''] = Panic"
  by (simp add: example_target_eq eval_defs)

section \<open>Deleting a path\<close>

lemma SetMapIndex_None: "SetMapIndex s ma t None = Ok (mapdelete s ma t)"
  by (simp add: SetMapIndex_def)

lemma arrays_mapdelete [simp]: "arrays (mapdelete s ma t) = arrays s"
  by (simp add: mapdelete_def split: option.splits)

lemma mapdelete_arrays_id [simp]: "(mapdelete s ma t)\<lparr>arrays := arrays s\<rparr> = mapdelete s ma t"
  by (simp add: mapdelete_def split: option.splits)

lemma MapIndex_mapdelete:
  "MapIndex (mapdelete s ma t) mp f = (if mp = ma \<and> f = t then None else MapIndex s mp f)"
  by (auto simp: MapIndex_def mapdelete_def AList.delete_conv split: option.splits)

lemma mapdelete_idem [simp]: "mapdelete (mapdelete s ma t) ma t = mapdelete s ma t"
  by (simp add: mapdelete_def AList.delete_idem split: option.splits)

lemma mapdelete_absent: "MapIndex s ma t = None \<Longrightarrow> mapdelete s ma t = s"
  by (auto simp: mapdelete_def MapIndex_def map_of_eq_None_iff split: option.splits)

lemma mapdelete_arrays_same:
  "arrays s a ! n = x \<Longrightarrow>
   (mapdelete s ma t)\<lparr>arrays := (arrays s)(a := (arrays s a)[n := x])\<rparr> = mapdelete s ma t"
  by (auto simp: mapdelete_def split: option.splits)

text \<open>The modifier is never reached when the path to its argument does not resolve.\<close>

lemma get_loop_unresolved:
  "get_loop None s v flds = Ok (None, s) \<Longrightarrow> get_loop (Some t) s v flds = Ok (None, s)"
proof (induction flds arbitrary: v)
  case Nil
  then show ?case by simp
next
  case (Cons f flds)
  show ?case
  proof (cases v)
    case (VMap mt ma)
    show ?thesis
    proof (cases "MapIndex s ma f")
      case None
      with VMap show ?thesis by simp
    next
      case (Some kv)
      with VMap Cons.prems have r: "get_loop None s kv flds = Ok (None, s)"
        by (simp add: callModifier_def obind_def SetMapIndex_same)
      then have "flds \<noteq> []" by auto
      with VMap Some Cons.IH [OF r] show ?thesis
        by (simp add: callModifier_def obind_def SetMapIndex_same)
    qed
  next
    case (VSlice ty b l)
    show ?thesis
    proof (cases "\<exists>n a. ParseInt f = Some n \<and> \<not> (n < 0 \<or> n > MaxInt32) \<and> nat n < l \<and> b = Some a")
      case False
      with VSlice show ?thesis
        by (simp add: get_loop_VSlice_miss [OF False] del: get_loop.simps)
    next
      case True
      then obtain n a where n: "ParseInt f = Some n" "\<not> (n < 0 \<or> n > MaxInt32)" "nat n < l" "b = Some a"
        by blast
      with VSlice Cons.prems have r: "get_loop None s (arrays s a ! nat n) flds = Ok (None, s)"
        by (simp add: callModifier_def obind_def store_arrays_same)
      then have "flds \<noteq> []" by auto
      with VSlice n Cons.IH [OF r] show ?thesis
        by (simp add: callModifier_def obind_def store_arrays_same)
    qed
  qed simp_all
qed

text \<open>A modifier that returns its argument and leaves the store alone changes nothing.\<close>

lemma get_loop_inert:
  "get_loop None s v flds = Ok (Some x, s) \<Longrightarrow> flds \<noteq> [] \<Longrightarrow>
   (\<And>slot. deleteModifier t s x slot = Ok (Some x, s)) \<Longrightarrow>
   get_loop (Some t) s v flds = Ok (Some x, s)"
proof (induction flds arbitrary: v)
  case Nil
  then show ?case by simp
next
  case (Cons f flds)
  show ?case
  proof (cases v)
    case (VMap mt ma)
    show ?thesis
    proof (cases "MapIndex s ma f")
      case None
      with VMap Cons.prems show ?thesis by simp
    next
      case (Some kv)
      with VMap Cons.prems have r: "get_loop None s kv flds = Ok (Some x, s)"
        by (simp add: callModifier_def obind_def SetMapIndex_same)
      show ?thesis
      proof (cases "flds = []")
        case True
        with r have "kv = x" by simp
        with True VMap Some Cons.prems(3) show ?thesis
          by (simp add: callModifier_def obind_def SetMapIndex_same)
      next
        case False
        with VMap Some Cons.IH [OF r False Cons.prems(3)] show ?thesis
          by (simp add: callModifier_def obind_def SetMapIndex_same)
      qed
    qed
  next
    case (VSlice ty b l)
    show ?thesis
    proof (cases "\<exists>n a. ParseInt f = Some n \<and> \<not> (n < 0 \<or> n > MaxInt32) \<and> nat n < l \<and> b = Some a")
      case False
      with VSlice Cons.prems show ?thesis
        by (simp add: get_loop_VSlice_miss [OF False] del: get_loop.simps)
    next
      case True
      then obtain n a where n: "ParseInt f = Some n" "\<not> (n < 0 \<or> n > MaxInt32)" "nat n < l" "b = Some a"
        by blast
      with VSlice Cons.prems have r: "get_loop None s (arrays s a ! nat n) flds = Ok (Some x, s)"
        by (simp add: callModifier_def obind_def store_arrays_same)
      show ?thesis
      proof (cases "flds = []")
        case True
        with r have "arrays s a ! nat n = x" by simp
        with True VSlice n Cons.prems(3) show ?thesis
          by (simp add: callModifier_def obind_def store_arrays_same)
      next
        case False
        with VSlice n Cons.IH [OF r False Cons.prems(3)] show ?thesis
          by (simp add: callModifier_def obind_def store_arrays_same)
      qed
    qed
  qed (use Cons.prems in simp_all)
qed

text \<open>When the argument of the modifier is a map, the key is removed from that map.\<close>

lemma get_loop_delete_key:
  "get_loop None s v flds = Ok (Some (VMap mk ma), s) \<Longrightarrow> flds \<noteq> [] \<Longrightarrow> t \<noteq> [] \<Longrightarrow>
   MapIndex s ma t \<noteq> Some (VMap mk ma) \<Longrightarrow>
   get_loop (Some t) s v flds = Ok (Some (VMap mk ma), mapdelete s ma t)"
proof (induction flds arbitrary: v)
  case Nil
  then show ?case by simp
next
  case (Cons f flds)
  show ?case
  proof (cases v)
    case (VMap mt mp)
    show ?thesis
    proof (cases "MapIndex s mp f")
      case None
      with VMap Cons.prems show ?thesis by simp
    next
      case (Some kv)
      with VMap Cons.prems have r: "get_loop None s kv flds = Ok (Some (VMap mk ma), s)"
        by (simp add: callModifier_def obind_def SetMapIndex_same)
      show ?thesis
      proof (cases "flds = []")
        case True
        with r have kv: "kv = VMap mk ma" by simp
        with Some Cons.prems(4) have "\<not> (mp = ma \<and> f = t)" by auto
        with Some kv have "MapIndex (mapdelete s ma t) mp f = Some (VMap mk ma)"
          by (simp add: MapIndex_mapdelete)
        with True VMap Some kv Cons.prems(3) show ?thesis
          by (simp add: callModifier_def deleteModifier_def obind_def SetMapIndex_None
              SetMapIndex_same)
      next
        case False
        with VMap Some Cons.IH [OF r False Cons.prems(3,4)] show ?thesis
          by (simp add: callModifier_def obind_def SetMapIndex_same)
      qed
    qed
  next
    case (VSlice ty b l)
    show ?thesis
    proof (cases "\<exists>n a. ParseInt f = Some n \<and> \<not> (n < 0 \<or> n > MaxInt32) \<and> nat n < l \<and> b = Some a")
      case False
      with VSlice Cons.prems show ?thesis
        by (simp add: get_loop_VSlice_miss [OF False] del: get_loop.simps)
    next
      case True
      then obtain n a where n: "ParseInt f = Some n" "\<not> (n < 0 \<or> n > MaxInt32)" "nat n < l" "b = Some a"
        by blast
      with VSlice Cons.prems
      have r: "get_loop None s (arrays s a ! nat n) flds = Ok (Some (VMap mk ma), s)"
        by (simp add: callModifier_def obind_def store_arrays_same)
      show ?thesis
      proof (cases "flds = []")
        case True
        with r have kv: "arrays s a ! nat n = VMap mk ma" by simp
        with True VSlice n kv Cons.prems(3) show ?thesis
          by (simp add: callModifier_def deleteModifier_def obind_def SetMapIndex_None
              mapdelete_arrays_same)
      next
        case False
        with VSlice n Cons.IH [OF r False Cons.prems(3,4)] show ?thesis
          by (simp add: callModifier_def obind_def store_arrays_same)
      qed
    qed
  qed (use Cons.prems in simp_all)
qed

text \<open>Once the key is gone, the path resolves as before or not at all.\<close>

lemma get_loop_after_mapdelete:
  "get_loop None s v flds = Ok (r, s) \<Longrightarrow>
   get_loop None (mapdelete s ma t) v flds = Ok (None, mapdelete s ma t)
   \<or> get_loop None (mapdelete s ma t) v flds = Ok (r, mapdelete s ma t)"
proof (induction flds arbitrary: v)
  case Nil
  then show ?case by simp
next
  case (Cons f flds)
  show ?case
  proof (cases v)
    case (VMap mt mp)
    show ?thesis
    proof (cases "MapIndex s mp f")
      case None
      then have "MapIndex (mapdelete s ma t) mp f = None"
        by (simp add: MapIndex_mapdelete)
      with None VMap Cons.prems show ?thesis by simp
    next
      case (Some kv)
      with VMap Cons.prems have r: "get_loop None s kv flds = Ok (r, s)"
        by (simp add: callModifier_def obind_def SetMapIndex_same)
      show ?thesis
      proof (cases "mp = ma \<and> f = t")
        case True
        then have "MapIndex (mapdelete s ma t) mp f = None"
          by (simp add: MapIndex_mapdelete)
        with VMap show ?thesis by simp
      next
        case False
        then have "MapIndex (mapdelete s ma t) mp f = Some kv"
          using Some by (simp add: MapIndex_mapdelete)
        with VMap Cons.IH [OF r] show ?thesis
          by (simp add: callModifier_def obind_def SetMapIndex_same)
      qed
    qed
  next
    case (VSlice ty b l)
    show ?thesis
    proof (cases "\<exists>n a. ParseInt f = Some n \<and> \<not> (n < 0 \<or> n > MaxInt32) \<and> nat n < l \<and> b = Some a")
      case False
      with VSlice Cons.prems show ?thesis
        by (simp add: get_loop_VSlice_miss [OF False] del: get_loop.simps)
    next
      case True
      then obtain n a where n: "ParseInt f = Some n" "\<not> (n < 0 \<or> n > MaxInt32)" "nat n < l" "b = Some a"
        by blast
      with VSlice Cons.prems have r: "get_loop None s (arrays s a ! nat n) flds = Ok (r, s)"
        by (simp add: callModifier_def obind_def store_arrays_same)
      with VSlice n Cons.IH [OF r] show ?thesis
        by (simp add: callModifier_def obind_def mapdelete_arrays_same)
    qed
  qed (use Cons.prems in simp_all)
qed

text \<open>The same four facts for \<open>get\<close>, which treats the first field on its own.\<close>

lemma get_unresolved:
  "get s d flds None = Ok (None, s) \<Longrightarrow> get s d flds (Some t) = Ok (None, s)"
  by (auto simp: get_def callModifier_def get_loop_unresolved
      split: list.splits option.splits val.splits if_splits)

lemma get_inert:
  assumes "get s d flds None = Ok (Some x, s)"
    and "\<And>slot. deleteModifier t s x slot = Ok (Some x, s)"
  shows "get s d flds (Some t) = Ok (Some x, s)"
proof (cases flds)
  case Nil
  with assms show ?thesis
    by (auto simp: get_def callModifier_def)
next
  case (Cons k rest)
  show ?thesis
  proof (cases "rest = []")
    case True
    with Cons assms show ?thesis
      by (auto simp: get_def obind_def SetMapIndex_same split: option.splits val.splits)
  next
    case False
    with Cons assms show ?thesis
      by (auto simp: get_def get_loop_inert split: option.splits val.splits)
  qed
qed

lemma get_delete_key:
  assumes "get s d flds None = Ok (Some (VMap mk ma), s)" and "t \<noteq> []"
    and "MapIndex s ma t \<noteq> Some (VMap mk ma)"
  shows "get s d flds (Some t) = Ok (Some (VMap mk ma), mapdelete s ma t)"
proof (cases flds)
  case Nil
  with assms show ?thesis
    by (auto simp: get_def callModifier_def deleteModifier_def obind_def SetMapIndex_None)
next
  case (Cons k rest)
  show ?thesis
  proof (cases "rest = []")
    case True
    with Cons assms(1) have k: "MapIndex s d k = Some (VMap mk ma)"
      by (auto simp: get_def split: option.splits val.splits)
    with assms(3) have "\<not> (d = ma \<and> k = t)" by auto
    with k have "MapIndex (mapdelete s ma t) d k = Some (VMap mk ma)"
      by (simp add: MapIndex_mapdelete)
    with True Cons k assms(2) show ?thesis
      by (simp add: get_def deleteModifier_def obind_def SetMapIndex_None SetMapIndex_same)
  next
    case False
    with Cons assms show ?thesis
      by (auto simp: get_def get_loop_delete_key split: option.splits val.splits)
  qed
qed

lemma get_after_mapdelete:
  assumes "get s d flds None = Ok (r, s)"
  shows "get (mapdelete s ma t) d flds None = Ok (None, mapdelete s ma t)
         \<or> get (mapdelete s ma t) d flds None = Ok (r, mapdelete s ma t)"
proof (cases flds)
  case Nil
  with assms show ?thesis
    by (auto simp: get_def callModifier_def)
next
  case (Cons k rest)
  show ?thesis
  proof (cases "MapIndex (mapdelete s ma t) d k = MapIndex s d k")
    case True
    with Cons assms show ?thesis
      using get_loop_after_mapdelete [of s _ rest r ma t]
      by (auto simp: get_def split: option.splits val.splits if_splits)
  next
    case False
    then have "MapIndex (mapdelete s ma t) d k = None"
      by (simp add: MapIndex_mapdelete split: if_splits)
    with Cons show ?thesis
      by (simp add: get_def)
  qed
qed

text \<open>
  Claim C7, as amended. For a path whose last field \<open>target\<close> is not empty, with
  \<open>flds\<close> the fields before it, the parent path. \<open>delete\<close> returns and the store
  is as before in these four cases: \<open>get\<close> finds no value for the parent path (a key
  or an index on it is missing, or a field of it would have to be looked up in a null
  or in a scalar, or its only field holds a null); the parent path leads to a scalar;
  it leads to a map, a \<open>RawData\<close> or a \<open>map[string]interface{}\<close>, that has no key
  \<open>target\<close>; it leads to a slice for which \<open>target\<close> is not an index within its
  length. And when the parent path leads to a map (that is not stored in itself under
  \<open>target\<close>), \<open>delete\<close> removes the key \<open>target\<close> from that map and changes
  nothing else, and deleting the path a second time returns the same store as deleting
  it once. Nothing is stated for a parent that is a null held in a nested map or in a
  slice, and nothing for an index within the length of a slice.
\<close>

theorem delete_unresolved_or_key:
  assumes "target = last (Split query (CHR ''.''))"
    and "flds = butlast (Split query (CHR ''.''))"
    and "target \<noteq> []"
  shows "(get s d flds None = Ok (None, s) \<longrightarrow> delete s d query = Ok s)
     \<and> (get s d flds None = Ok (Some (VScalar c), s) \<longrightarrow> delete s d query = Ok s)
     \<and> (get s d flds None = Ok (Some (VMap mk ma), s) \<and> MapIndex s ma target = None
          \<longrightarrow> delete s d query = Ok s)
     \<and> (get s d flds None = Ok (Some (VSlice ty b l), s)
          \<and> (\<forall>i. ParseInt target = Some i \<longrightarrow> i < 0 \<or> int l \<le> i)
          \<longrightarrow> delete s d query = Ok s)
     \<and> (get s d flds None = Ok (Some (VMap mk ma), s) \<and> MapIndex s ma target \<noteq> Some (VMap mk ma)
          \<longrightarrow> delete s d query = Ok (mapdelete s ma target)
              \<and> obind (delete s d query) (\<lambda>s1. delete s1 d query) = delete s d query)"
proof (intro conjI impI)
  have del: "delete s0 d query = obind (get s0 d flds (Some target)) (\<lambda>(_, s1). Ok s1)" for s0
    using assms by (simp add: delete_def Let_def)
  { assume "get s d flds None = Ok (None, s)"
    then show "delete s d query = Ok s"
      by (simp add: del get_unresolved obind_def) }
  { assume a: "get s d flds None = Ok (Some (VScalar c), s)"
    have "deleteModifier target s (VScalar c) slot = Ok (Some (VScalar c), s)" for slot
      using assms(3) by (simp add: deleteModifier_def)
    with a have "get s d flds (Some target) = Ok (Some (VScalar c), s)"
      by (simp add: get_inert)
    then show "delete s d query = Ok s"
      by (simp add: del obind_def) }
  { assume a: "get s d flds None = Ok (Some (VMap mk ma), s) \<and> MapIndex s ma target = None"
    then have "get s d flds (Some target) = Ok (Some (VMap mk ma), mapdelete s ma target)"
      using assms(3) by (simp add: get_delete_key)
    with a show "delete s d query = Ok s"
      by (simp add: del obind_def mapdelete_absent) }
  { assume a: "get s d flds None = Ok (Some (VSlice ty b l), s)
          \<and> (\<forall>i. ParseInt target = Some i \<longrightarrow> i < 0 \<or> int l \<le> i)"
    then have "deleteModifier target s (VSlice ty b l) slot = Ok (Some (VSlice ty b l), s)" for slot
      using assms(3) by (auto simp: deleteModifier_def split: option.splits)
    with a have "get s d flds (Some target) = Ok (Some (VSlice ty b l), s)"
      by (simp add: get_inert)
    then show "delete s d query = Ok s"
      by (simp add: del obind_def) }
  { assume a: "get s d flds None = Ok (Some (VMap mk ma), s) \<and> MapIndex s ma target \<noteq> Some (VMap mk ma)"
    then have g: "get s d flds (Some target) = Ok (Some (VMap mk ma), mapdelete s ma target)"
      using assms(3) by (simp add: get_delete_key)
    then show once: "delete s d query = Ok (mapdelete s ma target)"
      by (simp add: del obind_def)
    let ?s = "mapdelete s ma target"
    from a get_after_mapdelete [of s d flds "Some (VMap mk ma)" ma target]
    consider "get ?s d flds None = Ok (None, ?s)" | "get ?s d flds None = Ok (Some (VMap mk ma), ?s)"
      by auto
    then have "delete ?s d query = Ok ?s"
    proof cases
      case 1
      then show ?thesis
        by (simp add: del get_unresolved obind_def)
    next
      case 2
      moreover have "MapIndex ?s ma target \<noteq> Some (VMap mk ma)"
        by (simp add: MapIndex_mapdelete)
      ultimately have "get ?s d flds (Some target) = Ok (Some (VMap mk ma), mapdelete ?s ma target)"
        using assms(3) by (simp add: get_delete_key)
      then show ?thesis
        by (simp add: del obind_def)
    qed
    with once show "obind (delete s d query) (\<lambda>s1. delete s1 d query) = delete s d query"
      by (simp add: obind_def) }
qed

theorem delete_unresolved_or_key_witness:
  "delete (snd example_target) (fst example_target) ''foo.x'' = Ok (snd example_target)
   \<and> delete (snd example_target) (fst example_target) ''m.k.x'' = Ok (snd example_target)
   \<and> delete (snd example_target) (fst example_target) ''m.zz'' = Ok (snd example_target)
   \<and> delete (snd example_target) (fst example_target) ''arr.3'' = Ok (snd example_target)
   \<and> delete (snd example_target) (fst example_target) ''m.k''
       = Ok (mapdelete (snd example_target) (Some 1) ''k'')
   \<and> obind (delete (snd example_target) (fst example_target) ''m.k'')
        (\<lambda>s1. delete s1 (fst example_target) ''m.k'')
       = delete (snd example_target) (fst example_target) ''m.k''"
  using delete_unresolved_or_key
    [where query = "''foo.x''" and target = "''x''" and flds = "[''foo'']"
       and s = "snd example_target" and d = "fst example_target"]
    delete_unresolved_or_key
    [where query = "''m.k.x''" and target = "''x''" and flds = "[''m'', ''k'']"
       and s = "snd example_target" and d = "fst example_target" and c = "SInt64 1"]
    delete_unresolved_or_key
    [where query = "''m.zz''" and target = "''zz''" and flds = "[''m'']"
       and s = "snd example_target" and d = "fst example_target" and ma = "Some 1"
       and mk = IsRawData]
    delete_unresolved_or_key
    [where query = "''arr.3''" and target = "''3''" and flds = "[''arr'']"
       and s = "snd example_target" and d = "fst example_target"
       and ty = typeOfInt64 and b = "Some 0" and l = 3]
    delete_unresolved_or_key
    [where query = "''m.k''" and target = "''k''" and flds = "[''m'']"
       and s = "snd example_target" and d = "fst example_target" and ma = "Some 1"
       and mk = IsRawData]
  by (simp add: example_target_eq eval_defs)

text \<open>
  Claim C7 as stated fails on a sequence index: deleting the first element of
  \<open>[1, 2, 3]\<close> once leaves \<open>[2, 3]\<close>, and deleting the same path again leaves
  \<open>[3]\<close>.
\<close>

theorem delete_index_twice_counterexample:
  "(case delete (snd example_target) (fst example_target) ''arr.0'' of
      Ok s1 \<Rightarrow> load_data 5 s1 (fst example_target) | _ \<Rightarrow> None)
     = Some (TObject [(''arr'', TSlice typeOfInt64 [I64 2, I64 3]),
                      (''m'', TObject [(''k'', I64 1)])])
   \<and> (case obind (delete (snd example_target) (fst example_target) ''arr.0'')
                (\<lambda>s1. delete s1 (fst example_target) ''arr.0'') of
         Ok s2 \<Rightarrow> load_data 5 s2 (fst example_target) | _ \<Rightarrow> None)
     = Some (TObject [(''arr'', TSlice typeOfInt64 [I64 3]),
                      (''m'', TObject [(''k'', I64 1)])])
   \<and> obind (delete (snd example_target) (fst example_target) ''arr.0'')
          (\<lambda>s1. delete s1 (fst example_target) ''arr.0'')
       \<noteq> delete (snd example_target) (fst example_target) ''arr.0''"
proof -
  have once: "(case delete (snd example_target) (fst example_target) ''arr.0'' of
      Ok s1 \<Rightarrow> load_data 5 s1 (fst example_target) | _ \<Rightarrow> None)
     = Some (TObject [(''arr'', TSlice typeOfInt64 [I64 2, I64 3]),
                      (''m'', TObject [(''k'', I64 1)])])"
    by (simp add: example_target_eq eval_defs)
  have twice: "(case obind (delete (snd example_target) (fst example_target) ''arr.0'')
                (\<lambda>s1. delete s1 (fst example_target) ''arr.0'') of
         Ok s2 \<Rightarrow> load_data 5 s2 (fst example_target) | _ \<Rightarrow> None)
     = Some (TObject [(''arr'', TSlice typeOfInt64 [I64 3]),
                      (''m'', TObject [(''k'', I64 1)])])"
    by (simp add: example_target_eq eval_defs)
  from once twice show ?thesis
    by auto
qed

text \<open>
  Outside the amended claim: a parent that is present and null. The closure of
  \<open>delete\<close> returns the zero Value for it. Under the null entry \<open>n\<close> of the nested
  map of \<open>{"m": {"k": 1, "n": null}}\<close>, deleting \<open>m.n.x\<close> removes the entry \<open>n\<close>;
  under the null element of the slice of \<open>{"l": [null]}\<close>, a \<open>[]interface{}\<close>,
  deleting \<open>l.0.x\<close> panics in \<open>Value.Set\<close>.
\<close>

lemma delete_below_null_parent:
  "(let (d, s) = alloc_data empty_store
                   (Data (Some [(''m'', TObject [(''k'', I64 1), (''n'', TNil)])]))
    in case delete s d ''m.n.x'' of Ok s1 \<Rightarrow> load_data 5 s1 d | _ \<Rightarrow> None)
     = Some (TObject [(''m'', TObject [(''k'', I64 1)])])"
  "(let (d, s) = alloc_data empty_store (Data (Some [(''l'', TSlice typeOfInterface [TNil])]))
    in delete s d ''l.0.x'') = Panic"
  by (simp_all add: eval_defs)

section \<open>Where the code panics or shares storage\<close>

text \<open>
  Claim C10. The zero \<open>Data\<close> holds the nil map. An update keyed by the empty path
  resolves to that nil map, which is a \<open>RawData\<close>, so \<open>merge\<close> runs on it; its first
  \<open>SetMapIndex\<close> is an assignment to an entry in a nil map, and the call panics.
  The patch is \<open>{"": {"a": 1}}\<close>.
\<close>

theorem ApplyTo_empty_target_panics:
  "(let (u, s) = alloc_data empty_store (Data (Some [(''a'', I64 1)]))
    in ApplyTo 5 s None [\<lparr>Deletes = [], Updates = [([], u)]\<rparr>]) = Panic"
  by (simp add: eval_defs)

text \<open>
  The same happens after a delete of the empty path, which resets the target to the
  nil map, and \<open>Value.SetLen\<close> panics when the last element of a slice is deleted
  from a slice that is the value of a map entry.
\<close>

lemma ApplyTo_delete_all_then_update_panics:
  "ApplyTo 5 (snd example_target) (fst example_target)
     [\<lparr>Deletes = [[]], Updates = [([], Some 1)]\<rparr>] = Panic"
  by (simp add: example_target_eq eval_defs)

lemma ApplyTo_delete_last_element_panics:
  "ApplyTo 5 (snd example_target) (fst example_target)
     [\<lparr>Deletes = [''arr.2''], Updates = []\<rparr>] = Panic"
  by (simp add: example_target_eq eval_defs)

text \<open>
  Claim C2. Merging \<open>{"l": [{"x": 1}]}\<close> with \<open>{"l": [{"y": 2}]}\<close>, both slices
  of type \<open>[]RawData\<close>, appends the second slice's element as it is: the map
  \<open>{"y": 2}\<close> of the second input is now also the element \<open>l.1\<close> of the result.
  Storing the key \<open>z\<close> into that element of the result changes the second input.
\<close>

theorem Merge_shares_appended_elements:
  "(let (a, s0) = alloc_data empty_store
                    (Data (Some [(''l'', TSlice typeOfObject [TObject [(''x'', I64 1)]])]));
        (b, s1) = alloc_data s0
                    (Data (Some [(''l'', TSlice typeOfObject [TObject [(''y'', I64 2)]])]))
    in case Merge 5 s1 [a, b] of
         Ok (r, s2) \<Rightarrow>
           (case Get s2 r [''l'', ''1''] of
              Ok (VMap mt m, s3) \<Rightarrow>
                (case SetMapIndex s3 m ''z'' (Some (VScalar (SBool True))) of
                   Ok s4 \<Rightarrow> Some (load_data 5 s2 r, load_data 5 s2 b, load_data 5 s4 b)
                 | _ \<Rightarrow> None)
            | _ \<Rightarrow> None)
       | _ \<Rightarrow> None)
   = Some (Some (TObject [(''l'', TSlice typeOfObject
                                    [TObject [(''x'', I64 1)], TObject [(''y'', I64 2)]])]),
           Some (TObject [(''l'', TSlice typeOfObject [TObject [(''y'', I64 2)]])]),
           Some (TObject [(''l'', TSlice typeOfObject
                                    [TObject [(''y'', I64 2), (''z'', TScalar (SBool True))]])]))"
  by (simp add: eval_defs)

text \<open>
  Claim C6. \<open>d\<close> is \<open>{"l": [{"x": 1}]}\<close>. The first action of the patch merges
  \<open>d\<close> itself at the empty path, which appends the element of \<open>d\<close>'s slice, shared,
  to the slice of the clone; the second action updates \<open>l.1\<close>, which is that shared
  map. \<open>Apply\<close> returns no error, and \<open>d\<close> has changed.
\<close>

theorem Apply_changes_its_argument:
  "(let (d, s0) = alloc_data empty_store
                    (Data (Some [(''l'', TSlice typeOfObject [TObject [(''x'', I64 1)]])]));
        (u, s1) = alloc_data s0 (Data (Some [(''z'', I64 1)]));
        patch = [\<lparr>Deletes = [], Updates = [([], d)]\<rparr>,
                 \<lparr>Deletes = [], Updates = [(''l.1'', u)]\<rparr>]
    in case Apply 5 s1 d patch of
         Ok (err, applied, s2) \<Rightarrow> Some (err, load_data 5 s1 d, load_data 5 s2 d)
       | _ \<Rightarrow> None)
   = Some (None,
           Some (TObject [(''l'', TSlice typeOfObject [TObject [(''x'', I64 1)]])]),
           Some (TObject [(''l'', TSlice typeOfObject [TObject [(''x'', I64 1), (''z'', I64 1)]])]))"
  by (simp add: eval_defs)

text \<open>
  The other half of claim C6: \<open>ApplyTo\<close> returns the invalid-query error for the
  update path \<open>foo\<close> after the delete path \<open>m\<close> has been applied to the target.
\<close>

lemma ApplyTo_partial_on_error:
  "(case ApplyTo 5 (snd example_target) (fst example_target)
           [\<lparr>Deletes = [''m''], Updates = [(''foo'', Some 1)]\<rparr>] of
      Ok (err, target, s2) \<Rightarrow> Some (err, load_data 5 s2 target)
    | _ \<Rightarrow> None)
   = Some (Some (ErrInvalidQuery ''foo''),
           Some (TObject [(''arr'', TSlice typeOfInt64 [I64 1, I64 2, I64 3])]))"
  by (simp add: example_target_eq eval_defs)

text \<open>
  Claim C3. The accumulator holds \<open>{"m": {"x": null}}\<close> after the first input;
  the second input is \<open>{"m": {"x": 1}}\<close>. For the key \<open>x\<close>, \<open>mergeValue\<close> gets a
  valid \<open>target\<close> that holds a nil interface: \<open>target.Elem()\<close> is the zero Value and
  \<open>target.Type()\<close> panics, where the incoming \<open>1\<close> should replace the null.
\<close>

theorem Merge_null_accumulator_panics:
  "(let (a, s0) = alloc_data empty_store (Data (Some [(''m'', TObject [(''x'', TNil)])]));
        (b, s1) = alloc_data s0 (Data (Some [(''m'', TObject [(''x'', I64 1)])]))
    in Merge 5 s1 [a, b]) = Panic"
  by (simp add: eval_defs)

text \<open>
  The rules of \<open>mergeValue\<close> apart from that case: a nil incoming value leaves the
  accumulator's entry as it is; an absent entry, an entry of another type and a scalar
  entry are replaced by a clone of the incoming value; two slices of one type are
  appended.
\<close>

lemma mergeValue_rules:
  "mergeValue (Suc n) s target VNil = Ok (target, s)"
  "v \<noteq> VNil \<Longrightarrow> mergeValue (Suc n) s None v = obind (clone n s v) (\<lambda>(v', s1). Ok (Some v', s1))"
  "v \<noteq> VNil \<Longrightarrow> tv \<noteq> VNil \<Longrightarrow> TypeOf tv \<noteq> TypeOf v \<Longrightarrow>
     mergeValue (Suc n) s (Some tv) v = obind (clone n s v) (\<lambda>(v', s1). Ok (Some v', s1))"
  "mergeValue (Suc n) s (Some (VScalar c)) (VScalar c')
     = obind (clone n s (VScalar c')) (\<lambda>(v', s1). Ok (Some v', s1))"
  "mergeValue (Suc n) s (Some (VSlice t a l)) (VSlice t b m)
     = (let (r, s1) = AppendSlice s t a l b m in Ok (Some r, s1))"
  by (cases tv; simp)+

lemma AppendSlice_elements:
  assumes "AppendSlice s t (Some a) l (Some b) m = (VSlice t' a' l', s')"
    and "l \<le> length (arrays s a)" and "m \<le> length (arrays s b)"
  shows "\<exists>x. a' = Some x \<and> l' = l + m \<and> t' = t
     \<and> take l' (arrays s' x) = take l (arrays s a) @ take m (arrays s b)"
  using assms
  by (auto simp: AppendSlice_def new_array_def Let_def split: if_splits)

end
